theory Spec2Isabelle
  imports Main "HOL-Library.Word" "HOL-Library.Signed_Division"
begin

section \<open>The vvector container: data model\<close>

text \<open>
  A shallow embedding of \<^verbatim>\<open>src/vvector.c\<close>. A \<^verbatim>\<open>ptrdiff_t\<close> is an \<open>int\<close>; the
  places where the C code computes a new size or a new length check the 64-bit range,
  and leaving it (undefined behaviour in C) is the outcome \<open>Crash Overflow\<close>. C's
  \<^verbatim>\<open>/\<close> and \<^verbatim>\<open>%\<close> truncate towards zero: they are \<open>sdiv\<close> and \<open>smod\<close>.
  Sizes are those of an LP64 platform: 8 bytes for a \<^verbatim>\<open>ptrdiff_t\<close> and for a pointer.
\<close>

type_synonym byte = "8 word"

definition PTRDIFF_MAX :: int where
  "PTRDIFF_MAX = 9223372036854775807"

definition PTRDIFF_MIN :: int where
  "PTRDIFF_MIN = - 9223372036854775808"

definition ptrdiff_ok :: "int \<Rightarrow> bool" where
  "ptrdiff_ok x = (PTRDIFF_MIN \<le> x \<and> x \<le> PTRDIFF_MAX)"

definition NR_ELEM_IN_PAGE :: int where
  "NR_ELEM_IN_PAGE = 32"

definition VEC_ENOMEM :: int where
  "VEC_ENOMEM = 0"

definition VEC_ENOVEC :: int where
  "VEC_ENOVEC = 1"

definition VEC_EBADINDEX :: int where
  "VEC_EBADINDEX = 2"

definition VEC_ENOVALUE :: int where
  "VEC_ENOVALUE = 3"

definition VEC_ESEVERE :: int where
  "VEC_ESEVERE = 99"

text \<open>
  A function pointer is the identity of the function it points to; a null function
  pointer is \<open>None\<close>. The context pointer is an address, 0 for \<^verbatim>\<open>NULL\<close>.
\<close>

datatype fnptr = vvector_lib_malloc | vvector_lib_free | vvector_lib_realloc | user_fn nat

record vvectorAlloc =
  malloc_fn :: "fnptr option"
  free_fn :: "fnptr option"
  realloc_fn :: "fnptr option"
  ctx :: nat

record vvectorMetadata =
  capacity :: int
  length_elems :: int
  element_size :: int

definition sizeof_vvectorMetadata :: int where
  "sizeof_vvectorMetadata = 24"

definition sizeof_vvectorAlloc :: int where
  "sizeof_vvectorAlloc = 32"

definition sizeof_pointer :: int where
  "sizeof_pointer = 8"

text \<open>
  The buffer \<^verbatim>\<open>*vec\<close>: the metadata at offset 0, the allocator descriptor that
  \<^verbatim>\<open>vec_new_\<close> wrote after it (if it wrote one), and the bytes of the block that
  follow them.
\<close>

record buffer =
  meta :: vvectorMetadata
  desc :: "vvectorAlloc option"
  data :: "byte list"

text \<open>
  The handle \<^verbatim>\<open>vec\<close> of type \<^verbatim>\<open>uint8_t **\<close>: null, or a cell that holds the buffer
  pointer \<^verbatim>\<open>*vec\<close>, itself null (\<open>None\<close>) or a buffer.
\<close>

datatype vvector = NullVec | Handle "buffer option"

text \<open>What C leaves undefined is an outcome of the model, not a value.\<close>

datatype crash = NullDeref | DivByZero | Overflow | OutOfBounds | NullCall

datatype 'a outcome = Crash crash | Ret 'a

text \<open>
  The allocator functions are the environment. Every call is logged; the environment
  decides whether the call with a given number succeeds and which bytes a grown block
  holds in its new part. A failed reallocation returns null and leaves the old block
  allocated; a successful one keeps the bytes up to the smaller of the two sizes.
\<close>

datatype alloc_call =
  MallocCall fnptr int nat
  | ReallocCall fnptr int int nat
  | FreeCall fnptr int nat

record allocator_env =
  succeeds :: "nat \<Rightarrow> bool"
  junk :: "nat \<Rightarrow> nat \<Rightarrow> byte"

text \<open>
  The state: the log of allocator calls, the caller's memory holding allocator
  descriptors (by address), and the handle.
\<close>

record state =
  calls :: "alloc_call list"
  mem :: "nat \<Rightarrow> vvectorAlloc option"
  vec :: vvector

section \<open>Helper functions\<close>

definition get_meta :: "buffer \<Rightarrow> vvectorMetadata" where
  "get_meta b = meta b"

definition vec_get_element_size :: "buffer \<Rightarrow> int" where
  "vec_get_element_size b =
     (if element_size (get_meta b) < 0 then - element_size (get_meta b)
      else element_size (get_meta b))"

definition vec_get_capacity :: "buffer \<Rightarrow> int" where
  "vec_get_capacity b = capacity (get_meta b)"

definition length_to_pages :: "int \<Rightarrow> int \<Rightarrow> int" where
  "length_to_pages len nr_elem_in_page =
     (if len smod nr_elem_in_page = 0 then len sdiv nr_elem_in_page
      else len sdiv nr_elem_in_page + 1)"

definition getLengthOfMetadata :: "buffer \<Rightarrow> int" where
  "getLengthOfMetadata b =
     (if element_size (get_meta b) < 0 then sizeof_vvectorMetadata + sizeof_vvectorAlloc
      else sizeof_vvectorMetadata)"

definition vvectorGetLength :: "vvector \<Rightarrow> int" where
  "vvectorGetLength v =
     (case v of
        NullVec \<Rightarrow> 0
      | Handle None \<Rightarrow> 0
      | Handle (Some b) \<Rightarrow> length_elems (get_meta b))"

definition vvectorIsEmpty :: "vvector \<Rightarrow> int" where
  "vvectorIsEmpty v =
     (case v of
        NullVec \<Rightarrow> 1
      | Handle None \<Rightarrow> 1
      | Handle (Some b) \<Rightarrow> (if vvectorGetLength v = 0 then 1 else 0))"

definition nr_pages_available :: "buffer \<Rightarrow> int outcome" where
  "nr_pages_available b =
     (let vec_capacity = vec_get_capacity b;
          vec_element_size = vec_get_element_size b;
          element_mem = vec_capacity - getLengthOfMetadata b
      in if vec_element_size = 0 then Crash DivByZero
         else Ret ((element_mem sdiv vec_element_size) sdiv NR_ELEM_IN_PAGE))"

definition nr_pages_used :: "buffer \<Rightarrow> int" where
  "nr_pages_used b = length_to_pages (vvectorGetLength (Handle (Some b))) NR_ELEM_IN_PAGE"

definition has_empty_pages :: "buffer \<Rightarrow> int outcome" where
  "has_empty_pages b =
     (case nr_pages_available b of
        Crash c \<Rightarrow> Crash c
      | Ret avail \<Rightarrow> (if avail - nr_pages_used b = 0 then Ret 0 else Ret 1))"

definition has_custom_alloc :: "buffer \<Rightarrow> bool" where
  "has_custom_alloc b = (element_size (get_meta b) < 0)"

definition get_alloc :: "buffer \<Rightarrow> vvectorAlloc option" where
  "get_alloc b = (if has_custom_alloc b then desc b else None)"

definition is_full :: "buffer \<Rightarrow> bool" where
  "is_full b =
     (let vec_capacity = vec_get_capacity b;
          vec_length = vvectorGetLength (Handle (Some b));
          vec_element_size = vec_get_element_size b;
          nr_of_bytes_of_metadata =
            (if has_custom_alloc b then sizeof_vvectorAlloc + sizeof_vvectorMetadata
             else sizeof_vvectorMetadata)
      in vec_capacity = vec_length * vec_element_size + nr_of_bytes_of_metadata)"

definition index_is_invalid :: "buffer \<Rightarrow> int \<Rightarrow> bool" where
  "index_is_invalid b index = (index \<ge> vvectorGetLength (Handle (Some b)))"

text \<open>A pointer into the buffer is its byte offset from the start of the buffer.\<close>

definition get_start_of_data :: "buffer \<Rightarrow> int" where
  "get_start_of_data b =
     (if has_custom_alloc b then sizeof_vvectorMetadata + sizeof_vvectorAlloc
      else sizeof_vvectorMetadata)"

definition get_malloc :: "buffer \<Rightarrow> fnptr option" where
  "get_malloc b =
     (if \<not> has_custom_alloc b then Some vvector_lib_malloc
      else case get_alloc b of None \<Rightarrow> None | Some a \<Rightarrow> malloc_fn a)"

definition get_free :: "buffer \<Rightarrow> fnptr option" where
  "get_free b =
     (if \<not> has_custom_alloc b then Some vvector_lib_free
      else case get_alloc b of None \<Rightarrow> None | Some a \<Rightarrow> free_fn a)"

definition get_realloc :: "buffer \<Rightarrow> fnptr option" where
  "get_realloc b =
     (if \<not> has_custom_alloc b then Some vvector_lib_realloc
      else case get_alloc b of None \<Rightarrow> None | Some a \<Rightarrow> realloc_fn a)"

text \<open>
  The context pointer as the three memory functions compute it:
  \<^verbatim>\<open>if (has_custom_alloc(vec)) ctx = get_alloc(vec)->ctx; else ctx = 0;\<close>
\<close>

definition get_ctx :: "buffer \<Rightarrow> nat" where
  "get_ctx b =
     (if has_custom_alloc b then (case get_alloc b of None \<Rightarrow> 0 | Some a \<Rightarrow> ctx a)
      else 0)"

section \<open>The allocator calls\<close>

text \<open>The bytes of a block that lie before \<open>data\<close>.\<close>

definition block_header :: "buffer \<Rightarrow> int" where
  "block_header b =
     (case desc b of
        None \<Rightarrow> sizeof_vvectorMetadata
      | Some a \<Rightarrow> sizeof_vvectorMetadata + sizeof_vvectorAlloc)"

definition resize_data :: "allocator_env \<Rightarrow> nat \<Rightarrow> byte list \<Rightarrow> nat \<Rightarrow> byte list" where
  "resize_data E k d n =
     (if n \<le> length d then take n d
      else d @ map (junk E k) [0 ..< n - length d])"

text \<open>
  \<^verbatim>\<open>fn(ptr, new_size, old_size, ctx)\<close>: logs the call; on failure the result pointer is
  null and the old block stays allocated; on success the block has \<open>new_size\<close> bytes.
  A block shorter than its own header is read out of bounds by every later access.
\<close>

definition do_realloc ::
  "allocator_env \<Rightarrow> state \<Rightarrow> fnptr option \<Rightarrow> buffer \<Rightarrow> int \<Rightarrow> int \<Rightarrow> nat
     \<Rightarrow> (state \<times> buffer option) outcome" where
  "do_realloc E s fn b new_size old_size c =
     (case fn of
        None \<Rightarrow> Crash NullCall
      | Some f \<Rightarrow>
          (let k = length (calls s);
               s' = s\<lparr>calls := calls s @ [ReallocCall f new_size old_size c]\<rparr>
           in if \<not> succeeds E k then Ret (s', None)
              else if new_size < block_header b then Crash OutOfBounds
              else Ret (s', Some (b\<lparr>data :=
                     resize_data E k (data b) (nat (new_size - block_header b))\<rparr>))))"

definition do_malloc ::
  "allocator_env \<Rightarrow> state \<Rightarrow> fnptr \<Rightarrow> int \<Rightarrow> nat \<Rightarrow> state \<times> bool" where
  "do_malloc E s f sz c =
     (s\<lparr>calls := calls s @ [MallocCall f sz c]\<rparr>, succeeds E (length (calls s)))"

section \<open>Memory functions\<close>

definition set_capacity :: "buffer \<Rightarrow> int \<Rightarrow> buffer" where
  "set_capacity b c = b\<lparr>meta := (meta b)\<lparr>capacity := c\<rparr>\<rparr>"

definition add_page_if_needed :: "allocator_env \<Rightarrow> state \<Rightarrow> (int \<times> state) outcome" where
  "add_page_if_needed E s =
     (case vec s of
        NullVec \<Rightarrow> Crash NullDeref
      | Handle None \<Rightarrow> Crash NullDeref
      | Handle (Some b) \<Rightarrow>
          if \<not> is_full b then Ret (0, s)
          else
            (let vec_capacity = vec_get_capacity b;
                 vec_element_size = vec_get_element_size b;
                 c = get_ctx b;
                 new_capacity = vec_capacity + NR_ELEM_IN_PAGE * vec_element_size
             in if \<not> ptrdiff_ok new_capacity then Crash Overflow
                else
                  (case do_realloc E s (get_realloc b) b new_capacity vec_capacity c of
                     Crash x \<Rightarrow> Crash x
                   | Ret (s', None) \<Rightarrow> Ret (1, s'\<lparr>vec := Handle None\<rparr>)
                   | Ret (s', Some b') \<Rightarrow>
                       Ret (0, s'\<lparr>vec := Handle (Some (set_capacity b' new_capacity))\<rparr>))))"

definition vvectorShrinkToFit :: "allocator_env \<Rightarrow> state \<Rightarrow> (int \<times> state) outcome" where
  "vvectorShrinkToFit E s =
     (case vec s of
        NullVec \<Rightarrow> Ret (VEC_ENOVEC, s)
      | Handle None \<Rightarrow> Ret (VEC_ENOVEC, s)
      | Handle (Some b) \<Rightarrow>
          (let vec_capacity = vec_get_capacity b;
               vec_element_size = vec_get_element_size b
           in case has_empty_pages b of
                Crash x \<Rightarrow> Crash x
              | Ret e \<Rightarrow>
                  if e = 0 then Ret (0, s)
                  else
                    (case nr_pages_available b of
                       Crash x \<Rightarrow> Crash x
                     | Ret avail \<Rightarrow>
                         (let new_size = vec_capacity
                                - (avail - nr_pages_used b) * vec_element_size * NR_ELEM_IN_PAGE;
                              c = get_ctx b
                          in if \<not> ptrdiff_ok new_size then Crash Overflow
                             else
                               (case do_realloc E s (get_realloc b) b new_size vec_capacity c of
                                  Crash x \<Rightarrow> Crash x
                                | Ret (s', None) \<Rightarrow> Ret (1, s'\<lparr>vec := Handle None\<rparr>)
                                | Ret (s', Some b') \<Rightarrow>
                                    Ret (0, s'\<lparr>vec := Handle (Some (set_capacity b' new_size))\<rparr>))))))"

definition vvectorReserve :: "allocator_env \<Rightarrow> state \<Rightarrow> int \<Rightarrow> (int \<times> state) outcome" where
  "vvectorReserve E s n =
     (case vec s of
        NullVec \<Rightarrow> Ret (VEC_ENOVEC, s)
      | Handle None \<Rightarrow> Ret (VEC_ENOVEC, s)
      | Handle (Some b) \<Rightarrow>
          if n < 0 then Ret (1, s)
          else
            (let vec_capacity = vec_get_capacity b;
                 vec_element_size = vec_get_element_size b;
                 c = get_ctx b;
                 new_capacity = length_to_pages n NR_ELEM_IN_PAGE * vec_element_size
                                  * NR_ELEM_IN_PAGE + vec_capacity
             in if \<not> ptrdiff_ok new_capacity then Crash Overflow
                else
                  (case do_realloc E s (get_realloc b) b new_capacity vec_capacity c of
                     Crash x \<Rightarrow> Crash x
                   | Ret (s', None) \<Rightarrow> Ret (VEC_ENOVEC, s'\<lparr>vec := Handle None\<rparr>)
                   | Ret (s', Some b') \<Rightarrow>
                       Ret (0, s'\<lparr>vec := Handle (Some (set_capacity b' new_capacity))\<rparr>))))"

section \<open>Create\<close>

definition normalise_alloc :: "vvectorAlloc \<Rightarrow> vvectorAlloc" where
  "normalise_alloc allocator =
     \<lparr> malloc_fn = (case malloc_fn allocator of None \<Rightarrow> Some vvector_lib_malloc | Some f \<Rightarrow> Some f),
       free_fn = (case free_fn allocator of None \<Rightarrow> Some vvector_lib_free | Some f \<Rightarrow> Some f),
       realloc_fn = (case realloc_fn allocator of None \<Rightarrow> Some vvector_lib_realloc | Some f \<Rightarrow> Some f),
       ctx = ctx allocator \<rparr>"

text \<open>
  \<^verbatim>\<open>vec_new_(sizeof_type, allocator)\<close>: \<open>allocator\<close> is a pointer into the caller's memory,
  \<open>None\<close> for null. The result handle is the \<open>vec\<close> of the returned state. A block of
  exactly the header's size has no bytes after the header.
\<close>

definition vec_new :: "allocator_env \<Rightarrow> state \<Rightarrow> int \<Rightarrow> nat option \<Rightarrow> state outcome" where
  "vec_new E s sizeof_type allocator =
     (if sizeof_type < 0 then Ret (s\<lparr>vec := NullVec\<rparr>)
      else case allocator of
        None \<Rightarrow>
          (let m = \<lparr> capacity = sizeof_vvectorMetadata, length_elems = 0,
                     element_size = sizeof_type \<rparr>;
               (s1, ok1) = do_malloc E s vvector_lib_malloc (capacity m) 0
           in if \<not> ok1 then Ret (s1\<lparr>vec := NullVec\<rparr>)
              else
                (let (s2, ok2) = do_malloc E s1 vvector_lib_malloc sizeof_pointer 0
                 in if \<not> ok2 then Ret (s2\<lparr>vec := NullVec\<rparr>)
                    else Ret (s2\<lparr>vec := Handle (Some \<lparr> meta = m, desc = None, data = [] \<rparr>)\<rparr>)))
      | Some p \<Rightarrow>
          (case mem s p of
             None \<Rightarrow> Crash NullDeref
           | Some given \<Rightarrow>
               (let a = normalise_alloc given;
                    m = \<lparr> capacity = sizeof_vvectorMetadata + sizeof_vvectorAlloc,
                          length_elems = 0, element_size = - sizeof_type \<rparr>
                in case malloc_fn a of
                     None \<Rightarrow> Crash NullCall
                   | Some f \<Rightarrow>
                       (let (s1, ok1) = do_malloc E s f (capacity m) (ctx a)
                        in if \<not> ok1 then Ret (s1\<lparr>vec := NullVec\<rparr>)
                           else
                             (let (s2, ok2) = do_malloc E s1 f sizeof_pointer (ctx a)
                              in if \<not> ok2 then Ret (s2\<lparr>vec := NullVec\<rparr>)
                                 else Ret (s2\<lparr>vec :=
                                        Handle (Some \<lparr> meta = m, desc = Some a, data = [] \<rparr>)\<rparr>))))))"

section \<open>The bytes of a block\<close>

text \<open>
  The block is one run of bytes: the three \<^verbatim>\<open>ptrdiff_t\<close> fields of the metadata in 24
  bytes, the four pointers of the descriptor in 32 bytes when \<^verbatim>\<open>vec_new_\<close> wrote one, and
  the bytes after them. Integers and pointers are stored little-endian in 8 bytes, a
  negative integer in two's complement.
\<close>

fun enc_le :: "nat \<Rightarrow> int \<Rightarrow> byte list" where
  "enc_le 0 x = []"
| "enc_le (Suc n) x = word_of_int (x mod 256) # enc_le n (x div 256)"

fun dec_le :: "byte list \<Rightarrow> int" where
  "dec_le [] = 0"
| "dec_le (c # cs) = uint c + 256 * dec_le cs"

definition enc_ptrdiff :: "int \<Rightarrow> byte list" where
  "enc_ptrdiff x = enc_le 8 x"

definition dec_ptrdiff :: "byte list \<Rightarrow> int" where
  "dec_ptrdiff cs =
     (let u = dec_le (take 8 cs)
      in if 9223372036854775808 \<le> u then u - 18446744073709551616 else u)"

text \<open>
  Where the three library functions lie is fixed when the program is linked. The model
  places them at three arbitrary distinct addresses; \<open>user_fn n\<close> is the caller's function
  at address \<open>n\<close>, which is none of the three and not 0. A null pointer is the address 0.
  Bytes that are read as a function pointer and hold another address stand for a
  function of the caller at that address.
\<close>

fun fn_address :: "fnptr \<Rightarrow> int" where
  "fn_address vvector_lib_malloc = 4096"
| "fn_address vvector_lib_free = 4128"
| "fn_address vvector_lib_realloc = 4160"
| "fn_address (user_fn n) = int n"

definition fn_at :: "int \<Rightarrow> fnptr option" where
  "fn_at a =
     (if a = 0 then None
      else if a = 4096 then Some vvector_lib_malloc
      else if a = 4128 then Some vvector_lib_free
      else if a = 4160 then Some vvector_lib_realloc
      else Some (user_fn (nat a)))"

definition enc_fn :: "fnptr option \<Rightarrow> byte list" where
  "enc_fn f = (case f of None \<Rightarrow> enc_le 8 0 | Some g \<Rightarrow> enc_le 8 (fn_address g))"

definition dec_fn :: "byte list \<Rightarrow> fnptr option" where
  "dec_fn cs = fn_at (dec_le (take 8 cs))"

definition enc_meta :: "vvectorMetadata \<Rightarrow> byte list" where
  "enc_meta m =
     enc_ptrdiff (capacity m) @ enc_ptrdiff (length_elems m) @ enc_ptrdiff (element_size m)"

definition dec_meta :: "byte list \<Rightarrow> vvectorMetadata" where
  "dec_meta cs =
     \<lparr> capacity = dec_ptrdiff cs, length_elems = dec_ptrdiff (drop 8 cs),
       element_size = dec_ptrdiff (drop 16 cs) \<rparr>"

definition enc_alloc :: "vvectorAlloc \<Rightarrow> byte list" where
  "enc_alloc a =
     enc_fn (malloc_fn a) @ enc_fn (free_fn a) @ enc_fn (realloc_fn a) @ enc_le 8 (int (ctx a))"

definition dec_alloc :: "byte list \<Rightarrow> vvectorAlloc" where
  "dec_alloc cs =
     \<lparr> malloc_fn = dec_fn cs, free_fn = dec_fn (drop 8 cs), realloc_fn = dec_fn (drop 16 cs),
       ctx = nat (dec_le (take 8 (drop 24 cs))) \<rparr>"

text \<open>All the bytes of the block, and the block that holds given bytes.\<close>

definition image :: "buffer \<Rightarrow> byte list" where
  "image b =
     enc_meta (meta b) @ (case desc b of None \<Rightarrow> [] | Some a \<Rightarrow> enc_alloc a) @ data b"

definition of_image :: "buffer \<Rightarrow> byte list \<Rightarrow> buffer" where
  "of_image b cs =
     \<lparr> meta = dec_meta cs,
       desc = (case desc b of None \<Rightarrow> None | Some a \<Rightarrow> Some (dec_alloc (drop 24 cs))),
       data = drop (nat (block_header b)) cs \<rparr>"

section \<open>Element access\<close>

definition move_bytes :: "byte list \<Rightarrow> nat \<Rightarrow> nat \<Rightarrow> nat \<Rightarrow> byte list" where
  "move_bytes d dst src n = take dst d @ take n (drop src d) @ drop (dst + n) d"

definition put_bytes :: "byte list \<Rightarrow> nat \<Rightarrow> byte list \<Rightarrow> byte list" where
  "put_bytes d dst cs = take dst d @ cs @ drop (dst + length cs) d"

text \<open>
  \<^verbatim>\<open>memmove(dst, src, n)\<close> between two places of the block, each a byte offset from the
  start of the block. Moving no byte touches nothing. A move that stays in the bytes
  after the header changes only them. A move that reaches the header, as the code
  makes with a negative index, is carried out on the bytes of the block: it overwrites
  the stored metadata or descriptor. An access outside the block is undefined; a
  negative count is a huge \<^verbatim>\<open>size_t\<close>. (When such a write sets the sign of the element
  size in a block that holds no descriptor, \<open>get_alloc\<close> finds none, and a call through
  it is the outcome \<open>NullCall\<close>: the code would call whatever the element bytes hold.)
\<close>

definition memmove_data :: "buffer \<Rightarrow> int \<Rightarrow> int \<Rightarrow> int \<Rightarrow> buffer outcome" where
  "memmove_data b dst src n =
     (let lo = block_header b;
          hi = block_header b + int (length (data b))
      in if n = 0 then Ret b
         else if n < 0 \<or> src < 0 \<or> dst < 0 \<or> hi < src + n \<or> hi < dst + n
           then Crash OutOfBounds
         else if lo \<le> src \<and> lo \<le> dst
           then Ret (b\<lparr>data := move_bytes (data b) (nat (dst - lo)) (nat (src - lo)) (nat n)\<rparr>)
         else Ret (of_image b (move_bytes (image b) (nat dst) (nat src) (nat n))))"

text \<open>
  Copying \<open>n\<close> bytes of the caller's value \<open>v\<close> to the offset \<open>dst\<close> of the block. Reading
  past the end of the value is undefined.
\<close>

definition copy_value :: "buffer \<Rightarrow> int \<Rightarrow> byte list \<Rightarrow> int \<Rightarrow> buffer outcome" where
  "copy_value b dst v n =
     (let lo = block_header b;
          hi = block_header b + int (length (data b))
      in if n = 0 then Ret b
         else if n < 0 \<or> dst < 0 \<or> int (length v) < n \<or> hi < dst + n
           then Crash OutOfBounds
         else if lo \<le> dst
           then Ret (b\<lparr>data := put_bytes (data b) (nat (dst - lo)) (take (nat n) v)\<rparr>)
         else Ret (of_image b (put_bytes (image b) (nat dst) (take (nat n) v))))"

definition vvectorGetAt :: "vvector \<Rightarrow> int \<Rightarrow> int option" where
  "vvectorGetAt v index =
     (case v of
        NullVec \<Rightarrow> None
      | Handle None \<Rightarrow> None
      | Handle (Some b) \<Rightarrow>
          (let vec_element_size = vec_get_element_size b
           in if index_is_invalid b index then None
              else Some (get_start_of_data b + vec_element_size * index)))"

definition vvectorGetBack :: "vvector \<Rightarrow> int option" where
  "vvectorGetBack v =
     (case v of
        NullVec \<Rightarrow> None
      | Handle None \<Rightarrow> None
      | Handle (Some b) \<Rightarrow>
          if vvectorIsEmpty v \<noteq> 0 then None
          else vvectorGetAt v (vvectorGetLength v - 1))"

definition vvectorGetFront :: "vvector \<Rightarrow> int option" where
  "vvectorGetFront v =
     (case v of
        NullVec \<Rightarrow> None
      | Handle None \<Rightarrow> None
      | Handle (Some b) \<Rightarrow>
          if vvectorIsEmpty v \<noteq> 0 then None
          else vvectorGetAt v 0)"

definition set_length :: "buffer \<Rightarrow> int \<Rightarrow> buffer" where
  "set_length b n = b\<lparr>meta := (meta b)\<lparr>length_elems := n\<rparr>\<rparr>"

definition vvectorWriteValueAt ::
  "state \<Rightarrow> int \<Rightarrow> byte list option \<Rightarrow> (int \<times> state) outcome" where
  "vvectorWriteValueAt s index val =
     (case vec s of
        NullVec \<Rightarrow> Ret (VEC_ENOVEC, s)
      | Handle None \<Rightarrow> Ret (VEC_ENOVEC, s)
      | Handle (Some b) \<Rightarrow>
          (let vec_element_size = vec_get_element_size b
           in if index_is_invalid b index then Ret (VEC_EBADINDEX, s)
              else case val of
                None \<Rightarrow> Ret (VEC_ENOVALUE, s)
              | Some v \<Rightarrow>
                  (let start_of_data = get_start_of_data b
                   in case copy_value b (start_of_data + index * vec_element_size) v
                             vec_element_size of
                        Crash x \<Rightarrow> Crash x
                      | Ret b' \<Rightarrow> Ret (0, s\<lparr>vec := Handle (Some b')\<rparr>))))"

text \<open>
  \<^verbatim>\<open>vvectorInsertValueAt\<close> calls \<^verbatim>\<open>add_page_if_needed\<close> first and drops its result;
  the index and the value are checked after it.
\<close>

definition vvectorInsertValueAt ::
  "allocator_env \<Rightarrow> state \<Rightarrow> int \<Rightarrow> byte list option \<Rightarrow> (int \<times> state) outcome" where
  "vvectorInsertValueAt E s index val =
     (case vec s of
        NullVec \<Rightarrow> Ret (VEC_ENOVEC, s)
      | Handle None \<Rightarrow> Ret (VEC_ENOVEC, s)
      | Handle (Some b0) \<Rightarrow>
          (case add_page_if_needed E s of
             Crash x \<Rightarrow> Crash x
           | Ret (r, s1) \<Rightarrow>
               (let vec_length = vvectorGetLength (vec s1)
                in case vec s1 of
                     NullVec \<Rightarrow> Crash NullDeref
                   | Handle None \<Rightarrow> Crash NullDeref
                   | Handle (Some b) \<Rightarrow>
                       (let vec_element_size = vec_get_element_size b
                        in if index > vvectorGetLength (vec s1) then Ret (VEC_EBADINDEX, s1)
                           else case val of
                             None \<Rightarrow> Ret (VEC_ENOVALUE, s1)
                           | Some v \<Rightarrow>
                               (let start_of_data = get_start_of_data b
                                in case memmove_data b
                                          (start_of_data + (index + 1) * vec_element_size)
                                          (start_of_data + index * vec_element_size)
                                          ((vec_length - index) * vec_element_size) of
                                     Crash x \<Rightarrow> Crash x
                                   | Ret b1 \<Rightarrow>
                                       (case copy_value b1
                                               (start_of_data + index * vec_element_size) v
                                               vec_element_size of
                                          Crash x \<Rightarrow> Crash x
                                        | Ret b2 \<Rightarrow>
                                            if \<not> ptrdiff_ok (length_elems (get_meta b2) + 1)
                                            then Crash Overflow
                                            else Ret (0, s1\<lparr>vec := Handle (Some
                                                   (set_length b2
                                                      (length_elems (get_meta b2) + 1)))\<rparr>)))))))"

definition vvectorPushBack ::
  "allocator_env \<Rightarrow> state \<Rightarrow> byte list option \<Rightarrow> (int \<times> state) outcome" where
  "vvectorPushBack E s val =
     (case vec s of
        NullVec \<Rightarrow> Ret (VEC_ENOVEC, s)
      | Handle None \<Rightarrow> Ret (VEC_ENOVEC, s)
      | Handle (Some b) \<Rightarrow>
          (case val of
             None \<Rightarrow> Ret (VEC_ENOVALUE, s)
           | Some v \<Rightarrow>
               (case vvectorInsertValueAt E s (vvectorGetLength (vec s)) val of
                  Crash x \<Rightarrow> Crash x
                | Ret (err, s') \<Rightarrow> if err \<noteq> 0 then Ret (err, s') else Ret (0, s'))))"

definition vvectorRemoveAt :: "state \<Rightarrow> int \<Rightarrow> (int \<times> state) outcome" where
  "vvectorRemoveAt s index =
     (case vec s of
        NullVec \<Rightarrow> Ret (VEC_ENOVEC, s)
      | Handle None \<Rightarrow> Ret (VEC_ENOVEC, s)
      | Handle (Some b) \<Rightarrow>
          (let vec_length = vvectorGetLength (vec s);
               vec_element_size = vec_get_element_size b
           in if index_is_invalid b index then Ret (VEC_EBADINDEX, s)
              else
                (let start_of_data = get_start_of_data b
                 in case memmove_data b (start_of_data + index * vec_element_size)
                           (start_of_data + (index + 1) * vec_element_size)
                           ((vec_length - index - 1) * vec_element_size) of
                      Crash x \<Rightarrow> Crash x
                    | Ret b1 \<Rightarrow>
                        if \<not> ptrdiff_ok (length_elems (get_meta b1) - 1) then Crash Overflow
                        else Ret (0, s\<lparr>vec := Handle (Some
                               (set_length b1 (length_elems (get_meta b1) - 1)))\<rparr>))))"

definition vvectorRemoveBack :: "state \<Rightarrow> (int \<times> state) outcome" where
  "vvectorRemoveBack s =
     (case vec s of
        NullVec \<Rightarrow> Ret (VEC_ENOVEC, s)
      | Handle None \<Rightarrow> Ret (VEC_ENOVEC, s)
      | Handle (Some b) \<Rightarrow>
          if vvectorIsEmpty (vec s) \<noteq> 0 then Ret (2, s)
          else
            (case vvectorRemoveAt s (vvectorGetLength (vec s) - 1) of
               Crash x \<Rightarrow> Crash x
             | Ret (err, s') \<Rightarrow> if err \<noteq> 0 then Ret (err, s') else Ret (0, s')))"

section \<open>Clients: sequences of calls\<close>

datatype operation =
  PushBack "byte list option"
  | InsertValueAt int "byte list option"
  | WriteValueAt int "byte list option"
  | RemoveAt int
  | RemoveBack
  | Reserve int
  | ShrinkToFit

fun apply_operation :: "allocator_env \<Rightarrow> state \<Rightarrow> operation \<Rightarrow> (int \<times> state) outcome" where
  "apply_operation E s (PushBack v) = vvectorPushBack E s v"
| "apply_operation E s (InsertValueAt i v) = vvectorInsertValueAt E s i v"
| "apply_operation E s (WriteValueAt i v) = vvectorWriteValueAt s i v"
| "apply_operation E s (RemoveAt i) = vvectorRemoveAt s i"
| "apply_operation E s RemoveBack = vvectorRemoveBack s"
| "apply_operation E s (Reserve n) = vvectorReserve E s n"
| "apply_operation E s ShrinkToFit = vvectorShrinkToFit E s"

text \<open>A client that makes the calls one after the other and keeps the return codes.\<close>

fun run :: "allocator_env \<Rightarrow> state \<Rightarrow> operation list \<Rightarrow> (int list \<times> state) outcome" where
  "run E s [] = Ret ([], s)"
| "run E s (x # xs) =
     (case apply_operation E s x of
        Crash c \<Rightarrow> Crash c
      | Ret (rc, s') \<Rightarrow>
          (case run E s' xs of
             Crash c \<Rightarrow> Crash c
           | Ret (rcs, s'') \<Rightarrow> Ret (rc # rcs, s'')))"

fun index_nonneg :: "operation \<Rightarrow> bool" where
  "index_nonneg (InsertValueAt i v) = (0 \<le> i)"
| "index_nonneg (WriteValueAt i v) = (0 \<le> i)"
| "index_nonneg (RemoveAt i) = (0 \<le> i)"
| "index_nonneg x = True"

section \<open>Layout invariant and observations\<close>

text \<open>
  A well-laid-out buffer: the descriptor is present exactly when the sign flag says so
  and its reallocate pointer is not null, the stored capacity is the block's size, the
  live elements fit, and the bytes after the header are a whole number of pages.
\<close>

definition valid_container :: "buffer \<Rightarrow> bool" where
  "valid_container b =
     (0 \<le> length_elems (meta b)
      \<and> ptrdiff_ok (capacity (meta b))
      \<and> block_header b = getLengthOfMetadata b
      \<and> get_realloc b \<noteq> None
      \<and> int (length (data b)) = capacity (meta b) - getLengthOfMetadata b
      \<and> length_elems (meta b) * vec_get_element_size b
            \<le> capacity (meta b) - getLengthOfMetadata b
      \<and> (NR_ELEM_IN_PAGE * vec_get_element_size b)
            dvd (capacity (meta b) - getLengthOfMetadata b))"

definition valid_state :: "state \<Rightarrow> bool" where
  "valid_state s =
     (case vec s of
        NullVec \<Rightarrow> True
      | Handle None \<Rightarrow> True
      | Handle (Some b) \<Rightarrow> valid_container b)"

text \<open>
  The element slots after the header. The quotient is meant for a positive element size
  only: C leaves the division by 0 undefined, and the theorems below that use it assume
  a positive element size.
\<close>

definition capacity_in_elements :: "buffer \<Rightarrow> int" where
  "capacity_in_elements b =
     (capacity (meta b) - getLengthOfMetadata b) sdiv vec_get_element_size b"

text \<open>The bytes of the live elements.\<close>

definition elements :: "buffer \<Rightarrow> byte list" where
  "elements b = take (nat (length_elems (meta b) * vec_get_element_size b)) (data b)"

section \<open>Concrete inputs\<close>

definition env_ok :: allocator_env where
  "env_ok = \<lparr> succeeds = (\<lambda>k. True), junk = (\<lambda>k i. 0) \<rparr>"

text \<open>An allocator whose calls fail from call number \<open>n\<close> on.\<close>

definition env_fail_from :: "nat \<Rightarrow> allocator_env" where
  "env_fail_from n = \<lparr> succeeds = (\<lambda>k. k < n), junk = (\<lambda>k i. 0) \<rparr>"

definition s_init :: state where
  "s_init = \<lparr> calls = [], mem = (\<lambda>p. None), vec = NullVec \<rparr>"

text \<open>The state after \<^verbatim>\<open>vec_new_(4, 0)\<close>, and after \<^verbatim>\<open>vec_new_(0, 0)\<close>.\<close>

definition fresh4 :: state where
  "fresh4 =
     \<lparr> calls = [MallocCall vvector_lib_malloc 24 0, MallocCall vvector_lib_malloc 8 0],
       mem = (\<lambda>p. None),
       vec = Handle (Some \<lparr> meta = \<lparr> capacity = 24, length_elems = 0, element_size = 4 \<rparr>,
                             desc = None, data = [] \<rparr>) \<rparr>"

definition fresh0 :: state where
  "fresh0 =
     \<lparr> calls = [MallocCall vvector_lib_malloc 24 0, MallocCall vvector_lib_malloc 8 0],
       mem = (\<lambda>p. None),
       vec = Handle (Some \<lparr> meta = \<lparr> capacity = 24, length_elems = 0, element_size = 0 \<rparr>,
                             desc = None, data = [] \<rparr>) \<rparr>"

text \<open>
  \<open>fresh4\<close> after one page was added by a successful reallocation, and after a failed
  reallocation: the handle's buffer pointer is null.
\<close>

definition grown4 :: state where
  "grown4 =
     \<lparr> calls = [MallocCall vvector_lib_malloc 24 0, MallocCall vvector_lib_malloc 8 0,
                ReallocCall vvector_lib_realloc 152 24 0],
       mem = (\<lambda>p. None),
       vec = Handle (Some \<lparr> meta = \<lparr> capacity = 152, length_elems = 0, element_size = 4 \<rparr>,
                             desc = None, data = replicate 128 0 \<rparr>) \<rparr>"

definition lost4 :: state where
  "lost4 =
     \<lparr> calls = [MallocCall vvector_lib_malloc 24 0, MallocCall vvector_lib_malloc 8 0,
                ReallocCall vvector_lib_realloc 152 24 0],
       mem = (\<lambda>p. None),
       vec = Handle None \<rparr>"

text \<open>
  The buffer after a successful reallocation to \<open>new_size\<close> bytes and the update of the
  stored capacity.
\<close>

definition resized :: "allocator_env \<Rightarrow> nat \<Rightarrow> buffer \<Rightarrow> int \<Rightarrow> buffer" where
  "resized E k b new_size =
     set_capacity (b\<lparr>data := resize_data E k (data b) (nat (new_size - block_header b))\<rparr>) new_size"

text \<open>Two buffers with the same element size field and the same descriptor.\<close>

definition same_layout :: "buffer \<Rightarrow> buffer \<Rightarrow> bool" where
  "same_layout b b1 = (element_size (meta b1) = element_size (meta b) \<and> desc b1 = desc b)"

text \<open>A container of two elements, and the same after \<open>[9, 9, 9, 9]\<close> was inserted at index 1.\<close>

definition buf_two4 :: buffer where
  "buf_two4 = \<lparr> meta = \<lparr> capacity = 152, length_elems = 2, element_size = 4 \<rparr>,
       desc = None, data = [1, 2, 3, 4, 5, 6, 7, 8] @ replicate 120 0 \<rparr>"

definition two4 :: state where
  "two4 = \<lparr> calls = [], mem = (\<lambda>p. None), vec = Handle (Some buf_two4) \<rparr>"

definition three4 :: state where
  "three4 = \<lparr> calls = [], mem = (\<lambda>p. None),
      vec = Handle (Some \<lparr> meta = \<lparr> capacity = 152, length_elems = 3, element_size = 4 \<rparr>,
       desc = None, data = [1, 2, 3, 4, 9, 9, 9, 9, 5, 6, 7, 8] @ replicate 116 0 \<rparr>) \<rparr>"

text \<open>\<open>fresh4\<close> after \<^verbatim>\<open>vvectorRemoveAt(vec, -1)\<close>.\<close>

definition negative4 :: state where
  "negative4 =
     \<lparr> calls = [MallocCall vvector_lib_malloc 24 0, MallocCall vvector_lib_malloc 8 0],
       mem = (\<lambda>p. None),
       vec = Handle (Some \<lparr> meta = \<lparr> capacity = 24, length_elems = - 1, element_size = 4 \<rparr>,
                             desc = None, data = [] \<rparr>) \<rparr>"

text \<open>The buffers of \<open>fresh4\<close> and \<open>fresh0\<close>; \<open>fresh0\<close> after \<^verbatim>\<open>vvectorReserve(vec, 1)\<close> and after a push.\<close>

definition buf_fresh4 :: buffer where
  "buf_fresh4 = \<lparr> meta = \<lparr> capacity = 24, length_elems = 0, element_size = 4 \<rparr>,
                   desc = None, data = [] \<rparr>"

definition buf_fresh0 :: buffer where
  "buf_fresh0 = \<lparr> meta = \<lparr> capacity = 24, length_elems = 0, element_size = 0 \<rparr>,
                   desc = None, data = [] \<rparr>"

definition reserved0 :: state where
  "reserved0 =
     \<lparr> calls = [MallocCall vvector_lib_malloc 24 0, MallocCall vvector_lib_malloc 8 0,
                ReallocCall vvector_lib_realloc 24 24 0],
       mem = (\<lambda>p. None),
       vec = Handle (Some buf_fresh0) \<rparr>"

definition pushed0 :: state where
  "pushed0 =
     \<lparr> calls = [MallocCall vvector_lib_malloc 24 0, MallocCall vvector_lib_malloc 8 0,
                ReallocCall vvector_lib_realloc 24 24 0, ReallocCall vvector_lib_realloc 24 24 0],
       mem = (\<lambda>p. None),
       vec = Handle (Some \<lparr> meta = \<lparr> capacity = 24, length_elems = 1, element_size = 0 \<rparr>,
                             desc = None, data = [] \<rparr>) \<rparr>"

text \<open>A result with the caller's memory replaced.\<close>

definition set_mem :: "(nat \<Rightarrow> vvectorAlloc option) \<Rightarrow> ('a \<times> state) outcome \<Rightarrow> ('a \<times> state) outcome" where
  "set_mem m r = (case r of Crash c \<Rightarrow> Crash c | Ret (x, s) \<Rightarrow> Ret (x, s\<lparr>mem := m\<rparr>))"

text \<open>
  A caller whose memory holds a descriptor at address 1, with a null free pointer, and
  the container that \<^verbatim>\<open>vec_new_(4, &descriptor)\<close> returns.
\<close>

definition caller_mem :: state where
  "caller_mem =
     \<lparr> calls = [],
       mem = (\<lambda>p. if p = 1
                   then Some \<lparr> malloc_fn = Some (user_fn 1), free_fn = None,
                                realloc_fn = Some (user_fn 3), ctx = 7 \<rparr>
                   else None),
       vec = NullVec \<rparr>"

definition buf_custom4 :: buffer where
  "buf_custom4 =
     \<lparr> meta = \<lparr> capacity = 56, length_elems = 0, element_size = - 4 \<rparr>,
       desc = Some \<lparr> malloc_fn = Some (user_fn 1), free_fn = Some vvector_lib_free,
                     realloc_fn = Some (user_fn 3), ctx = 7 \<rparr>,
       data = [] \<rparr>"

definition custom4 :: state where
  "custom4 = caller_mem\<lparr> calls := [MallocCall (user_fn 1) 56 7, MallocCall (user_fn 1) 8 7],
                          vec := Handle (Some buf_custom4) \<rparr>"

text \<open>
  The container that \<^verbatim>\<open>vec_new_(0, &descriptor)\<close> returns for the same caller, and the
  same after one \<^verbatim>\<open>push_back\<close>.
\<close>

definition buf_custom0 :: buffer where
  "buf_custom0 =
     \<lparr> meta = \<lparr> capacity = 56, length_elems = 0, element_size = 0 \<rparr>,
       desc = Some \<lparr> malloc_fn = Some (user_fn 1), free_fn = Some vvector_lib_free,
                     realloc_fn = Some (user_fn 3), ctx = 7 \<rparr>,
       data = [] \<rparr>"

definition custom0 :: state where
  "custom0 = caller_mem\<lparr> calls := [MallocCall (user_fn 1) 56 7, MallocCall (user_fn 1) 8 7],
                          vec := Handle (Some buf_custom0) \<rparr>"

definition pushed_custom0 :: state where
  "pushed_custom0 =
     caller_mem\<lparr> calls := [MallocCall (user_fn 1) 56 7, MallocCall (user_fn 1) 8 7],
                 vec := Handle (Some
                   \<lparr> meta = \<lparr> capacity = 56, length_elems = 1, element_size = 0 \<rparr>,
                     desc = Some \<lparr> malloc_fn = Some (user_fn 1), free_fn = Some vvector_lib_free,
                                   realloc_fn = Some (user_fn 3), ctx = 7 \<rparr>,
                     data = [] \<rparr>) \<rparr>"

text \<open>\<open>fresh0\<close> after one \<^verbatim>\<open>push_back\<close>.\<close>

definition pushed_fresh0 :: state where
  "pushed_fresh0 =
     \<lparr> calls = [MallocCall vvector_lib_malloc 24 0, MallocCall vvector_lib_malloc 8 0,
                ReallocCall vvector_lib_realloc 24 24 0],
       mem = (\<lambda>p. None),
       vec = Handle (Some \<lparr> meta = \<lparr> capacity = 24, length_elems = 1, element_size = 0 \<rparr>,
                             desc = None, data = [] \<rparr>) \<rparr>"

text \<open>
  \<open>custom4\<close> after \<^verbatim>\<open>vvectorReserve(vec, 1)\<close>, and \<open>custom4\<close> after
  \<^verbatim>\<open>vvectorWriteValueAt(vec, -2, value)\<close> with the value bytes \<open>[9, 0, 0, 0]\<close>: the low four
  bytes of the stored context pointer are the value's.
\<close>

definition reserved_custom4 :: state where
  "reserved_custom4 =
     caller_mem\<lparr> calls := [MallocCall (user_fn 1) 56 7, MallocCall (user_fn 1) 8 7,
                           ReallocCall (user_fn 3) 184 56 7],
                 vec := Handle (Some
                   \<lparr> meta = \<lparr> capacity = 184, length_elems = 0, element_size = - 4 \<rparr>,
                     desc = Some \<lparr> malloc_fn = Some (user_fn 1), free_fn = Some vvector_lib_free,
                                   realloc_fn = Some (user_fn 3), ctx = 7 \<rparr>,
                     data = replicate 128 0 \<rparr>) \<rparr>"

definition overwritten_custom4 :: state where
  "overwritten_custom4 =
     caller_mem\<lparr> calls := [MallocCall (user_fn 1) 56 7, MallocCall (user_fn 1) 8 7],
                 vec := Handle (Some
                   \<lparr> meta = \<lparr> capacity = 56, length_elems = 0, element_size = - 4 \<rparr>,
                     desc = Some \<lparr> malloc_fn = Some (user_fn 1), free_fn = Some vvector_lib_free,
                                   realloc_fn = Some (user_fn 3), ctx = 9 \<rparr>,
                     data = [] \<rparr>) \<rparr>"

section \<open>Basic facts\<close>

lemmas helper_defs = get_meta_def vec_get_element_size_def vec_get_capacity_def
  length_to_pages_def getLengthOfMetadata_def vvectorGetLength_def vvectorIsEmpty_def
  nr_pages_available_def nr_pages_used_def has_empty_pages_def has_custom_alloc_def
  get_alloc_def is_full_def index_is_invalid_def get_start_of_data_def get_malloc_def
  get_free_def get_realloc_def get_ctx_def block_header_def
  sizeof_vvectorMetadata_def sizeof_vvectorAlloc_def sizeof_pointer_def NR_ELEM_IN_PAGE_def

lemmas range_defs = ptrdiff_ok_def PTRDIFF_MAX_def PTRDIFF_MIN_def

lemmas code_defs = VEC_ENOMEM_def VEC_ENOVEC_def VEC_EBADINDEX_def VEC_ENOVALUE_def

lemma sdiv_nonneg: "0 \<le> a \<Longrightarrow> 0 < b \<Longrightarrow> (a::int) sdiv b = a div b"
  by (simp add: signed_divide_int_def sgn_if)

lemma smod_nonneg: "0 \<le> a \<Longrightarrow> 0 < b \<Longrightarrow> (a::int) smod b = a mod b"
  by (simp add: signed_modulo_int_def sgn_if)

lemma map_const_upt: "map (\<lambda>i. c) [0 ..< n] = replicate n c"
  by (simp add: map_replicate_const)

lemma fresh4_created: "vec_new env_ok s_init 4 None = Ret fresh4"
  by (simp add: vec_new_def do_malloc_def env_ok_def s_init_def fresh4_def helper_defs)

lemma fresh0_created: "vec_new env_ok s_init 0 None = Ret fresh0"
  by (simp add: vec_new_def do_malloc_def env_ok_def s_init_def fresh0_def helper_defs)

lemma vec_fresh4: "vec fresh4 = Handle (Some buf_fresh4)"
  by (simp add: fresh4_def buf_fresh4_def)

lemma vec_fresh0: "vec fresh0 = Handle (Some buf_fresh0)"
  by (simp add: fresh0_def buf_fresh0_def)

lemma valid_buf_fresh4: "valid_container buf_fresh4"
  by (simp add: valid_container_def buf_fresh4_def helper_defs range_defs)

lemma valid_buf_fresh0: "valid_container buf_fresh0"
  by (simp add: valid_container_def buf_fresh0_def helper_defs range_defs)

section \<open>Reallocation failure (C1)\<close>

text \<open>
  C1 says that when the reallocate function fails during grow-on-demand or reserve, the
  buffer pointer is left untouched, the old buffer is not lost, out-of-memory is reported
  and the insertion is aborted. The code assigns the result of the reallocate call to
  \<^verbatim>\<open>*vec\<close> before testing it. On the fresh container of 4-byte elements, with an
  allocator whose two allocations at creation succeed and whose reallocation fails: \<^verbatim>\<open>add_page_if_needed\<close> returns 1 and leaves the buffer pointer
  null, the old block still allocated and no longer referenced; \<^verbatim>\<open>vvectorInsertValueAt\<close>
  ignores that result and reads the metadata through the null pointer;
  \<^verbatim>\<open>vvectorReserve\<close> returns 1 with the buffer pointer null.
\<close>

theorem realloc_failure_loses_buffer:
  "vec_new (env_fail_from 2) s_init 4 None = Ret fresh4
   \<and> add_page_if_needed (env_fail_from 2) fresh4 = Ret (1, lost4)
   \<and> vvectorInsertValueAt (env_fail_from 2) fresh4 0 (Some [1, 2, 3, 4]) = Crash NullDeref
   \<and> vvectorReserve (env_fail_from 2) fresh4 1 = Ret (VEC_ENOVEC, lost4)
   \<and> vec lost4 = Handle None"
  by (simp add: vec_new_def do_malloc_def s_init_def
      vvectorInsertValueAt_def vvectorReserve_def add_page_if_needed_def do_realloc_def
      fresh4_def lost4_def helper_defs env_fail_from_def range_defs Let_def sdiv_nonneg smod_nonneg)

section \<open>Rejected insertions (C2)\<close>

text \<open>
  C2 says that \<^verbatim>\<open>insert_at\<close> with an index greater than the length, or with a null
  value, is rejected with length, capacity and element bytes unchanged. The code calls
  \<^verbatim>\<open>add_page_if_needed\<close> before it checks the index and the value: on the fresh
  container of 4-byte elements, which is full, both rejected calls return their error
  code after the capacity has grown from 24 to 152 bytes.
\<close>

theorem rejected_insert_grows_capacity:
  "vvectorInsertValueAt env_ok fresh4 5 (Some [1, 2, 3, 4]) = Ret (VEC_EBADINDEX, grown4)
   \<and> vvectorInsertValueAt env_ok fresh4 0 None = Ret (VEC_ENOVALUE, grown4)
   \<and> vec grown4 \<noteq> vec fresh4"
  by (simp add: vvectorInsertValueAt_def add_page_if_needed_def do_realloc_def map_const_upt
      fresh4_def grown4_def helper_defs env_ok_def range_defs set_capacity_def resize_data_def
      Let_def)

section \<open>Reading an element (C3)\<close>

text \<open>
  \<^verbatim>\<open>vvectorGetAt\<close> returns a pointer exactly when the index is below the length; for an
  index in \<open>[0, length)\<close> the pointer is the offset of the element's slot.
\<close>

lemma vvectorGetAt_below_length:
  "vvectorGetAt (Handle (Some b)) i =
     (if i < length_elems (meta b) then Some (get_start_of_data b + vec_get_element_size b * i)
      else None)"
  by (simp add: vvectorGetAt_def index_is_invalid_def vvectorGetLength_def get_meta_def)

text \<open>
  C3 says that \<^verbatim>\<open>get\<close> returns an element reference if and only if the index is in
  \<open>[0, length)\<close>, and none for every other index, the negative ones included.
  \<^verbatim>\<open>index_is_invalid\<close> tests only \<^verbatim>\<open>index >= length\<close>: on the fresh, empty container of
  4-byte elements, index -1 yields the pointer 4 bytes before the element region, at
  offset 20 of the buffer, inside the metadata.
\<close>

theorem vvectorGetAt_negative_index:
  "vvectorGetAt (vec fresh4) (- 1) = Some 20"
  by (simp add: vvectorGetAt_def fresh4_def helper_defs)

section \<open>Removing from an empty container (C5)\<close>

text \<open>
  C5 as the code has it: \<^verbatim>\<open>vvectorRemoveBack\<close> on a container of length 0 returns 2 and
  leaves the state as it is; 2 differs from success and from the invalid-handle code,
  and it is the value of the bad-index code.
\<close>

theorem remove_back_empty:
  assumes "vec s = Handle (Some b)" and "length_elems (meta b) = 0"
  shows "vvectorRemoveBack s = Ret (2, s) \<and> (2::int) = VEC_EBADINDEX
         \<and> (2::int) \<noteq> VEC_ENOVEC \<and> (2::int) \<noteq> 0"
  using assms by (simp add: vvectorRemoveBack_def helper_defs code_defs)

theorem remove_back_empty_witness:
  "vec fresh4 = Handle (Some \<lparr> meta = \<lparr> capacity = 24, length_elems = 0, element_size = 4 \<rparr>,
                                 desc = None, data = [] \<rparr>)
   \<and> vvectorRemoveBack fresh4 = Ret (2, fresh4)"
  using remove_back_empty [of fresh4
      "\<lparr> meta = \<lparr> capacity = 24, length_elems = 0, element_size = 4 \<rparr>, desc = None, data = [] \<rparr>"]
  by (simp add: fresh4_def)

text \<open>
  C5 as stated fails: the result of \<^verbatim>\<open>remove_back\<close> on the fresh, empty container is the
  result of \<^verbatim>\<open>remove_at\<close> with an out-of-range index, code \<^verbatim>\<open>VEC_EBADINDEX\<close>.
\<close>

theorem remove_back_empty_not_distinct:
  "vvectorRemoveBack fresh4 = Ret (VEC_EBADINDEX, fresh4)
   \<and> vvectorRemoveAt fresh4 0 = Ret (VEC_EBADINDEX, fresh4)"
  by (simp add: vvectorRemoveBack_def vvectorRemoveAt_def fresh4_def helper_defs VEC_EBADINDEX_def)

section \<open>Reallocation and the growth step\<close>

lemma length_resize_data [simp]: "length (resize_data E k d n) = n"
  by (simp add: resize_data_def)

lemma take_resize_data: "m \<le> n \<Longrightarrow> m \<le> length d \<Longrightarrow> take m (resize_data E k d n) = take m d"
  by (simp add: resize_data_def)

lemma do_realloc_Ret:
  assumes "do_realloc E s fn b new_size old_size c = Ret (s', r)"
  shows "mem s' = mem s \<and> vec s' = vec s \<and> length (calls s') = Suc (length (calls s))
         \<and> (case r of
              None \<Rightarrow> \<not> succeeds E (length (calls s))
            | Some b' \<Rightarrow> succeeds E (length (calls s)) \<and> block_header b \<le> new_size
                 \<and> b' = b\<lparr>data := resize_data E (length (calls s)) (data b) (nat (new_size - block_header b))\<rparr>)"
  using assms by (auto simp: do_realloc_def Let_def split: option.splits if_splits)

lemma do_realloc_success:
  assumes "fn = Some f" "succeeds E (length (calls s))" "block_header b \<le> new_size"
  shows "do_realloc E s fn b new_size old_size c =
     Ret (s\<lparr>calls := calls s @ [ReallocCall f new_size old_size c]\<rparr>,
          Some (b\<lparr>data := resize_data E (length (calls s)) (data b)
                            (nat (new_size - block_header b))\<rparr>))"
  using assms by (simp add: do_realloc_def Let_def)

lemma do_realloc_failure:
  assumes "fn = Some f" "\<not> succeeds E (length (calls s))"
  shows "do_realloc E s fn b new_size old_size c =
     Ret (s\<lparr>calls := calls s @ [ReallocCall f new_size old_size c]\<rparr>, None)"
  using assms by (simp add: do_realloc_def Let_def)

lemma add_page_if_needed_Ret:
  assumes "vec s = Handle (Some b)" and "add_page_if_needed E s = Ret (r, s1)"
  shows "(\<not> is_full b \<and> r = 0 \<and> s1 = s)
         \<or> (is_full b \<and> r = 1 \<and> vec s1 = Handle None \<and> mem s1 = mem s)
         \<or> (is_full b \<and> r = 0 \<and> mem s1 = mem s
             \<and> ptrdiff_ok (vec_get_capacity b + NR_ELEM_IN_PAGE * vec_get_element_size b)
             \<and> block_header b \<le> vec_get_capacity b + NR_ELEM_IN_PAGE * vec_get_element_size b
             \<and> vec s1 = Handle (Some (resized E (length (calls s)) b
                   (vec_get_capacity b + NR_ELEM_IN_PAGE * vec_get_element_size b))))"
  using assms
  by (auto simp: add_page_if_needed_def Let_def resized_def split: if_splits outcome.splits option.splits prod.splits dest!: do_realloc_Ret)

section \<open>Moving element bytes\<close>

lemma block_header_nonneg: "0 \<le> block_header b"
  by (simp add: block_header_def sizeof_vvectorMetadata_def sizeof_vvectorAlloc_def
      split: option.splits)

lemma memmove_data_zero [simp]: "memmove_data b dst src 0 = Ret b"
  by (simp add: memmove_data_def)

lemma copy_value_zero [simp]: "copy_value b dst v 0 = Ret b"
  by (simp add: copy_value_def)

text \<open>A move between element bytes, by offsets from the first element byte.\<close>

lemma memmove_data_ok:
  assumes "0 \<le> n" "0 \<le> src" "0 \<le> dst"
    and "src + n \<le> int (length (data b))" "dst + n \<le> int (length (data b))"
  shows "memmove_data b (block_header b + dst) (block_header b + src) n =
    Ret (b\<lparr>data := take (nat dst) (data b) @ take (nat n) (drop (nat src) (data b))
                       @ drop (nat (dst + n)) (data b)\<rparr>)"
proof (cases "n = 0")
  case True
  then show ?thesis by simp
next
  case False
  then show ?thesis
    using assms block_header_nonneg [of b]
    by (simp add: memmove_data_def move_bytes_def Let_def nat_add_distrib)
qed

lemma copy_value_ok:
  assumes "0 \<le> n" "0 \<le> dst" "n \<le> int (length v)" "dst + n \<le> int (length (data b))"
  shows "copy_value b (block_header b + dst) v n =
    Ret (b\<lparr>data := take (nat dst) (data b) @ take (nat n) v @ drop (nat (dst + n)) (data b)\<rparr>)"
proof (cases "n = 0")
  case True
  then show ?thesis by simp
next
  case False
  then show ?thesis
    using assms block_header_nonneg [of b]
    by (simp add: copy_value_def put_bytes_def Let_def nat_add_distrib)
qed

text \<open>A move that returns and does not reach below the element bytes changes only them.\<close>

lemma memmove_data_Ret:
  assumes "memmove_data b dst src n = Ret b'"
    and "n = 0 \<or> (block_header b \<le> dst \<and> block_header b \<le> src)"
  shows "\<exists>d. length d = length (data b) \<and> b' = b\<lparr>data := d\<rparr>"
proof (cases "n = 0")
  case True
  then have "b' = b\<lparr>data := data b\<rparr>" using assms(1) by simp
  then show ?thesis by blast
next
  case False
  then have "b' = b\<lparr>data := move_bytes (data b) (nat (dst - block_header b))
                      (nat (src - block_header b)) (nat n)\<rparr>"
    and "0 < n" "src + n \<le> block_header b + int (length (data b))"
      "dst + n \<le> block_header b + int (length (data b))"
    using assms by (auto simp: memmove_data_def Let_def split: if_splits)
  moreover from this assms(2) False
  have "length (move_bytes (data b) (nat (dst - block_header b))
                  (nat (src - block_header b)) (nat n)) = length (data b)"
    by (auto simp: move_bytes_def)
  ultimately show ?thesis by blast
qed

lemma copy_value_Ret:
  assumes "copy_value b dst v n = Ret b'" and "n = 0 \<or> block_header b \<le> dst"
  shows "\<exists>d. length d = length (data b) \<and> b' = b\<lparr>data := d\<rparr>"
proof (cases "n = 0")
  case True
  then have "b' = b\<lparr>data := data b\<rparr>" using assms(1) by simp
  then show ?thesis by blast
next
  case False
  then have "b' = b\<lparr>data := put_bytes (data b) (nat (dst - block_header b)) (take (nat n) v)\<rparr>"
    and "0 < n" "n \<le> int (length v)" "dst + n \<le> block_header b + int (length (data b))"
    using assms by (auto simp: copy_value_def Let_def split: if_splits)
  moreover from this assms(2) False
  have "length (put_bytes (data b) (nat (dst - block_header b)) (take (nat n) v))
          = length (data b)"
    by (auto simp: put_bytes_def)
  ultimately show ?thesis by blast
qed

lemma memmove_data_length:
  assumes "memmove_data b dst src n = Ret b'"
    and "n = 0 \<or> (block_header b \<le> dst \<and> block_header b \<le> src)"
  shows "length (data b') = length (data b)"
  using memmove_data_Ret [OF assms] by auto

lemma copy_value_length:
  assumes "copy_value b dst v n = Ret b'" and "n = 0 \<or> block_header b \<le> dst"
  shows "length (data b') = length (data b)"
  using copy_value_Ret [OF assms] by auto

lemma copy_value_Ret_size:
  assumes "copy_value b dst v n = Ret b'" "0 \<le> n"
  shows "n \<le> int (length v)"
  using assms by (auto simp: copy_value_def Let_def split: if_splits)

text \<open>
  Opening a gap of \<open>e\<close> bytes at offset \<open>a\<close>, filling it and closing it again leaves the
  \<open>a + m\<close> bytes that were live as they were.
\<close>

lemma gap_roundtrip:
  fixes d :: "'a list"
  assumes "a + m + e \<le> length d" "e \<le> length v"
  defines "d1 \<equiv> take (a + e) d @ take m (drop a d) @ drop (a + e + m) d"
  defines "d2 \<equiv> take a d1 @ take e v @ drop (a + e) d1"
  defines "d3 \<equiv> take a d2 @ take m (drop (a + e) d2) @ drop (a + m) d2"
  shows "take (a + m) d3 = take (a + m) d"
proof -
  have l1: "length d1 = length d" using assms by (simp add: d1_def)
  have t1: "take a d1 = take a d" using assms by (simp add: d1_def)
  have dr1: "drop (a + e) d1 = take m (drop a d) @ drop (a + e + m) d"
    using assms by (simp add: d1_def)
  have t2: "take a d2 = take a d" using assms l1 t1 by (simp add: d2_def)
  have dr2: "drop (a + e) d2 = drop (a + e) d1"
    using assms l1 by (simp add: d2_def)
  have "take (a + m) d3 = take a d @ take m (drop a d)"
    using assms l1 t2 dr2 dr1 by (simp add: d3_def)
  also have "\<dots> = take (a + m) d"
    by (simp add: take_add)
  finally show ?thesis .
qed

section \<open>The layout invariant under growth\<close>

lemma meta_resized [simp]: "meta (resized E k b c) = (meta b)\<lparr>capacity := c\<rparr>"
  by (simp add: resized_def set_capacity_def)

lemma desc_resized [simp]: "desc (resized E k b c) = desc b"
  by (simp add: resized_def set_capacity_def)

lemma data_resized [simp]:
  "data (resized E k b c) = resize_data E k (data b) (nat (c - block_header b))"
  by (simp add: resized_def set_capacity_def)

lemma meta_set_length [simp]: "meta (set_length b n) = (meta b)\<lparr>length_elems := n\<rparr>"
  by (simp add: set_length_def)

lemma desc_set_length [simp]: "desc (set_length b n) = desc b"
  by (simp add: set_length_def)

lemma data_set_length [simp]: "data (set_length b n) = data b"
  by (simp add: set_length_def)

lemma helpers_data [simp]:
  "vec_get_element_size (b\<lparr>data := d\<rparr>) = vec_get_element_size b"
  "getLengthOfMetadata (b\<lparr>data := d\<rparr>) = getLengthOfMetadata b"
  "get_start_of_data (b\<lparr>data := d\<rparr>) = get_start_of_data b"
  "block_header (b\<lparr>data := d\<rparr>) = block_header b"
  "get_realloc (b\<lparr>data := d\<rparr>) = get_realloc b"
  by (simp_all add: helper_defs)

lemma helpers_set_length [simp]:
  "vec_get_element_size (set_length b n) = vec_get_element_size b"
  "getLengthOfMetadata (set_length b n) = getLengthOfMetadata b"
  "get_start_of_data (set_length b n) = get_start_of_data b"
  "block_header (set_length b n) = block_header b"
  "get_realloc (set_length b n) = get_realloc b"
  by (simp_all add: helper_defs)

lemma helpers_resized [simp]:
  "vec_get_element_size (resized E k b c) = vec_get_element_size b"
  "getLengthOfMetadata (resized E k b c) = getLengthOfMetadata b"
  "get_start_of_data (resized E k b c) = get_start_of_data b"
  "block_header (resized E k b c) = block_header b"
  "get_realloc (resized E k b c) = get_realloc b"
  by (simp_all add: helper_defs)

text \<open>In a valid container the element bytes start where the code looks for them.\<close>

lemma start_of_data_valid: "valid_container b \<Longrightarrow> get_start_of_data b = block_header b"
  by (simp add: valid_container_def helper_defs)

lemma vec_get_element_size_nonneg: "0 \<le> vec_get_element_size b"
  by (simp add: vec_get_element_size_def)

lemma is_full_iff:
  "is_full b = (capacity (meta b) - getLengthOfMetadata b = length_elems (meta b) * vec_get_element_size b)"
  by (auto simp: helper_defs Let_def)

lemma valid_resized:
  assumes "valid_container b" "ptrdiff_ok c"
    and "(NR_ELEM_IN_PAGE * vec_get_element_size b) dvd (c - getLengthOfMetadata b)"
    and "length_elems (meta b) * vec_get_element_size b \<le> c - getLengthOfMetadata b"
  shows "valid_container (resized E k b c)"
proof -
  have h: "vec_get_element_size (resized E k b c) = vec_get_element_size b"
      "getLengthOfMetadata (resized E k b c) = getLengthOfMetadata b"
      "block_header (resized E k b c) = block_header b"
      "get_realloc (resized E k b c) = get_realloc b"
    by (simp_all add: helper_defs)
  have "0 \<le> length_elems (meta b)"
    using assms(1) by (simp add: valid_container_def)
  then have "0 \<le> length_elems (meta b) * vec_get_element_size b"
    using vec_get_element_size_nonneg [of b] by simp
  then have "0 \<le> c - getLengthOfMetadata b"
    using assms(4) by linarith
  then show ?thesis
    using assms by (simp add: valid_container_def h)
qed

text \<open>A valid container that is not full has room for one more element.\<close>

lemma room_if_not_full:
  assumes "valid_container b" "\<not> is_full b"
  shows "(length_elems (meta b) + 1) * vec_get_element_size b
           \<le> capacity (meta b) - getLengthOfMetadata b"
proof -
  let ?es = "vec_get_element_size b" and ?len = "length_elems (meta b)"
  let ?room = "capacity (meta b) - getLengthOfMetadata b"
  from assms(1) obtain k where k: "?room = NR_ELEM_IN_PAGE * ?es * k"
    by (auto simp: valid_container_def dvd_def)
  have le: "?len * ?es \<le> ?room" using assms(1) by (simp add: valid_container_def)
  have ne: "?room \<noteq> ?len * ?es" using assms(2) by (simp add: is_full_iff)
  have es0: "0 \<le> ?es" by (rule vec_get_element_size_nonneg)
  have "?es \<noteq> 0" using k ne by auto
  then have pos: "0 < ?es" using es0 by simp
  have "?len * ?es < ?room" using le ne by simp
  also have "?room = (NR_ELEM_IN_PAGE * k) * ?es" using k by (simp add: mult.commute mult.left_commute)
  finally have "?len < NR_ELEM_IN_PAGE * k" using pos
    by (simp only: mult_less_cancel_right_pos)
  then have "?len + 1 \<le> NR_ELEM_IN_PAGE * k" by simp
  then have "(?len + 1) * ?es \<le> (NR_ELEM_IN_PAGE * k) * ?es"
    using es0 by (rule mult_right_mono)
  then show ?thesis using k by (simp add: mult.commute mult.left_commute)
qed

text \<open>What \<^verbatim>\<open>add_page_if_needed\<close> leaves behind when the buffer pointer is not null.\<close>

lemma add_page_if_needed_valid:
  assumes "valid_container b" "vec s = Handle (Some b)"
    and "add_page_if_needed E s = Ret (r, sa)" "vec sa = Handle (Some ba)"
  shows "valid_container ba"
    and "element_size (meta ba) = element_size (meta b)"
    and "length_elems (meta ba) = length_elems (meta b)"
    and "desc ba = desc b"
    and "(length_elems (meta b) + 1) * vec_get_element_size b \<le> int (length (data ba))"
    and "take (nat (length_elems (meta b) * vec_get_element_size b)) (data ba)
           = take (nat (length_elems (meta b) * vec_get_element_size b)) (data b)"
    and "mem sa = mem s"
proof -
  let ?es = "vec_get_element_size b" and ?len = "length_elems (meta b)"
  let ?c = "vec_get_capacity b + NR_ELEM_IN_PAGE * ?es"
  from add_page_if_needed_Ret [OF assms(2,3)] assms(4)
  consider (same) "\<not> is_full b" "sa = s" "ba = b"
    | (grown) "is_full b" "ptrdiff_ok ?c" "ba = resized E (length (calls s)) b ?c" "mem sa = mem s"
    using assms(2) by auto
  then have "valid_container ba \<and> element_size (meta ba) = element_size (meta b)
      \<and> length_elems (meta ba) = length_elems (meta b) \<and> desc ba = desc b
      \<and> (?len + 1) * ?es \<le> int (length (data ba))
      \<and> take (nat (?len * ?es)) (data ba) = take (nat (?len * ?es)) (data b) \<and> mem sa = mem s"
  proof cases
    case same
    then show ?thesis
      using assms(1) room_if_not_full [OF assms(1)] by (simp add: valid_container_def)
  next
    case grown
    have full: "capacity (meta b) - getLengthOfMetadata b = ?len * ?es"
      using grown(1) by (simp add: is_full_iff)
    have es0: "0 \<le> ?es" by (rule vec_get_element_size_nonneg)
    have len0: "0 \<le> ?len" using assms(1) by (simp add: valid_container_def)
    have bh: "block_header b = getLengthOfMetadata b"
      using assms(1) by (simp add: valid_container_def)
    have dl: "int (length (data b)) = ?len * ?es"
      using assms(1) full by (simp add: valid_container_def)
    have room: "?c - getLengthOfMetadata b = ?len * ?es + NR_ELEM_IN_PAGE * ?es"
      using full by (simp add: vec_get_capacity_def get_meta_def)
    have dv: "(NR_ELEM_IN_PAGE * ?es) dvd (?c - getLengthOfMetadata b)"
      using assms(1) full unfolding room valid_container_def by (metis dvd_add dvd_refl)
    have v: "valid_container ba"
      unfolding grown(3)
      by (rule valid_resized [OF assms(1) grown(2) dv]) (use room es0 in \<open>simp add: NR_ELEM_IN_PAGE_def\<close>)
    have le0: "0 \<le> ?len * ?es" using es0 len0 by simp
    have l: "int (length (data ba)) = ?len * ?es + NR_ELEM_IN_PAGE * ?es"
      using room es0 le0 by (simp add: grown(3) bh NR_ELEM_IN_PAGE_def)
    have t: "take (nat (?len * ?es)) (data ba) = take (nat (?len * ?es)) (data b)"
      unfolding grown(3) data_resized
      by (rule take_resize_data) (use dl room es0 le0 bh in \<open>simp_all add: NR_ELEM_IN_PAGE_def\<close>)
    show ?thesis
      using v l t es0 grown by (simp add: NR_ELEM_IN_PAGE_def algebra_simps)
  qed
  then show "valid_container ba"
    and "element_size (meta ba) = element_size (meta b)"
    and "length_elems (meta ba) = length_elems (meta b)"
    and "desc ba = desc b"
    and "(length_elems (meta b) + 1) * vec_get_element_size b \<le> int (length (data ba))"
    and "take (nat (length_elems (meta b) * vec_get_element_size b)) (data ba)
           = take (nat (length_elems (meta b) * vec_get_element_size b)) (data b)"
    and "mem sa = mem s"
    by simp_all
qed

section \<open>Insert then remove (C8)\<close>

text \<open>
  An insertion at an index in \<open>[0, length]\<close> of a value of at least \<open>element_size\<close> bytes
  returns 0, provided the reallocation of the growth step succeeds when the buffer is
  full: the bytes from the index on move one slot towards the back and the value fills
  the gap.
\<close>

lemma insert_at_succeeds:
  assumes "valid_container b" "vec s = Handle (Some b)"
    and "0 \<le> i" "i \<le> length_elems (meta b)"
    and "vec_get_element_size b \<le> int (length v)"
    and "length_elems (meta b) < PTRDIFF_MAX"
    and "is_full b \<Longrightarrow> succeeds E (length (calls s))
           \<and> ptrdiff_ok (capacity (meta b) + NR_ELEM_IN_PAGE * vec_get_element_size b)"
  shows "\<exists>r sa ba d1 d2. add_page_if_needed E s = Ret (r, sa) \<and> vec sa = Handle (Some ba)
    \<and> d1 = take (nat ((i + 1) * vec_get_element_size b)) (data ba)
            @ take (nat ((length_elems (meta b) - i) * vec_get_element_size b))
                (drop (nat (i * vec_get_element_size b)) (data ba))
            @ drop (nat ((i + 1) * vec_get_element_size b
                         + (length_elems (meta b) - i) * vec_get_element_size b)) (data ba)
    \<and> d2 = take (nat (i * vec_get_element_size b)) d1 @ take (nat (vec_get_element_size b)) v
            @ drop (nat (i * vec_get_element_size b + vec_get_element_size b)) d1
    \<and> vvectorInsertValueAt E s i (Some v) =
        Ret (0, sa\<lparr>vec := Handle (Some (set_length (ba\<lparr>data := d2\<rparr>)
                                            (length_elems (meta b) + 1)))\<rparr>)"
proof -
  let ?es = "vec_get_element_size b" and ?len = "length_elems (meta b)"
  have es0: "0 \<le> ?es" by (rule vec_get_element_size_nonneg)
  have len0: "0 \<le> ?len" using assms(1) by (simp add: valid_container_def)
  obtain f where f: "get_realloc b = Some f"
    using assms(1) by (auto simp: valid_container_def)
  have "\<exists>r sa ba. add_page_if_needed E s = Ret (r, sa) \<and> vec sa = Handle (Some ba)"
  proof (cases "is_full b")
    case False
    then show ?thesis by (simp add: add_page_if_needed_def assms(2))
  next
    case True
    let ?c = "vec_get_capacity b + NR_ELEM_IN_PAGE * ?es"
    have ok: "ptrdiff_ok ?c" and su: "succeeds E (length (calls s))"
      using assms(7) [OF True] by (simp_all add: vec_get_capacity_def get_meta_def)
    have "0 \<le> ?len * ?es" using es0 len0 by simp
    then have "getLengthOfMetadata b \<le> capacity (meta b)"
      using assms(1) by (simp add: valid_container_def)
    then have hc: "block_header b \<le> ?c"
      using assms(1) es0 by (simp add: valid_container_def vec_get_capacity_def get_meta_def
          NR_ELEM_IN_PAGE_def)
    show ?thesis
      using True ok do_realloc_success [OF f su hc, of "vec_get_capacity b" "get_ctx b"]
      by (simp add: add_page_if_needed_def assms(2) Let_def)
  qed
  then obtain r sa ba where ap: "add_page_if_needed E s = Ret (r, sa)"
    and sa: "vec sa = Handle (Some ba)"
    by blast
  note ba = add_page_if_needed_valid [OF assms(1,2) ap sa]
  have es: "vec_get_element_size ba = ?es" using ba(2) by (simp add: helper_defs)
  have st: "get_start_of_data ba = block_header ba" using ba(1) by (rule start_of_data_valid)
  have le0: "0 \<le> i * ?es" and m0: "0 \<le> (?len - i) * ?es"
    using assms(3,4) es0 by simp_all
  have room: "(?len + 1) * ?es \<le> int (length (data ba))" by (rule ba(5))
  define d1 where "d1 = take (nat ((i + 1) * ?es)) (data ba)
             @ take (nat ((?len - i) * ?es)) (drop (nat (i * ?es)) (data ba))
             @ drop (nat ((i + 1) * ?es + (?len - i) * ?es)) (data ba)"
  have mm: "memmove_data ba (block_header ba + (i + 1) * ?es) (block_header ba + i * ?es)
              ((?len - i) * ?es) = Ret (ba\<lparr>data := d1\<rparr>)"
    unfolding d1_def
    by (rule memmove_data_ok) (use room le0 m0 es0 assms(3) in \<open>simp_all add: algebra_simps\<close>)
  have "0 \<le> (i + 1) * ?es" using assms(3) es0 by simp
  then have ld1: "length d1 = length (data ba)"
    using memmove_data_length [OF mm] le0 by simp
  define d2 where "d2 = take (nat (i * ?es)) d1 @ take (nat ?es) v @ drop (nat (i * ?es + ?es)) d1"
  have "(i + 1) * ?es \<le> (?len + 1) * ?es"
    using assms(4) es0 by (intro mult_right_mono) simp_all
  then have fit: "i * ?es + ?es \<le> (?len + 1) * ?es"
    by (simp add: algebra_simps)
  have "copy_value (ba\<lparr>data := d1\<rparr>) (block_header (ba\<lparr>data := d1\<rparr>) + i * ?es) v ?es
      = Ret (ba\<lparr>data := d1\<rparr>\<lparr>data := take (nat (i * ?es)) (data (ba\<lparr>data := d1\<rparr>))
               @ take (nat ?es) v @ drop (nat (i * ?es + ?es)) (data (ba\<lparr>data := d1\<rparr>))\<rparr>)"
    by (rule copy_value_ok) (use room le0 es0 assms(5) ld1 fit in simp_all)
  then have cp: "copy_value (ba\<lparr>data := d1\<rparr>) (block_header ba + i * ?es) v ?es
      = Ret (ba\<lparr>data := d2\<rparr>)"
    by (simp add: d2_def)
  have ok1: "ptrdiff_ok (?len + 1)" using len0 assms(6) by (simp add: range_defs)
  have "vvectorInsertValueAt E s i (Some v) =
        Ret (0, sa\<lparr>vec := Handle (Some (set_length (ba\<lparr>data := d2\<rparr>) (?len + 1)))\<rparr>)"
    using ap sa mm cp ok1 assms(4)
    by (simp add: vvectorInsertValueAt_def assms(2) Let_def vvectorGetLength_def get_meta_def
        es st ba(3))
  then show ?thesis using ap sa d1_def d2_def by blast
qed

text \<open>
  C8: on a valid container, for \<open>0 \<le> i \<le> length\<close> and a non-null value of at least
  \<open>element_size\<close> bytes, \<^verbatim>\<open>insert_at(i, v)\<close> returns 0 and makes the length one more, and
  the \<^verbatim>\<open>remove_at(i)\<close> that follows returns 0, restores the length and leaves the bytes
  of all the elements that were there as they were. The allocator is the environment:
  when the buffer is full the reallocation of the growth step is taken to succeed, and
  neither the new capacity nor the new length leaves the range of \<^verbatim>\<open>ptrdiff_t\<close>.
\<close>

theorem insert_remove_inverse:
  assumes valid: "valid_container b" and s: "vec s = Handle (Some b)"
    and i: "0 \<le> i" "i \<le> length_elems (meta b)"
    and v: "vec_get_element_size b \<le> int (length v)"
    and lt: "length_elems (meta b) < PTRDIFF_MAX"
    and env: "is_full b \<Longrightarrow> succeeds E (length (calls s))
           \<and> ptrdiff_ok (capacity (meta b) + NR_ELEM_IN_PAGE * vec_get_element_size b)"
  shows "\<exists>s1 b1 s2 b2. vvectorInsertValueAt E s i (Some v) = Ret (0, s1)
            \<and> vec s1 = Handle (Some b1)
            \<and> length_elems (meta b1) = length_elems (meta b) + 1
            \<and> vvectorRemoveAt s1 i = Ret (0, s2) \<and> vec s2 = Handle (Some b2)
            \<and> length_elems (meta b2) = length_elems (meta b)
            \<and> vec_get_element_size b2 = vec_get_element_size b
            \<and> elements b2 = elements b"
proof -
  let ?es = "vec_get_element_size b" and ?len = "length_elems (meta b)"
  from insert_at_succeeds [OF valid s i v lt env] obtain r sa ba d1 d2 where
    ap: "add_page_if_needed E s = Ret (r, sa)" and sa: "vec sa = Handle (Some ba)"
    and d1: "d1 = take (nat ((i + 1) * ?es)) (data ba)
            @ take (nat ((?len - i) * ?es)) (drop (nat (i * ?es)) (data ba))
            @ drop (nat ((i + 1) * ?es + (?len - i) * ?es)) (data ba)"
    and d2: "d2 = take (nat (i * ?es)) d1 @ take (nat ?es) v @ drop (nat (i * ?es + ?es)) d1"
    and ins: "vvectorInsertValueAt E s i (Some v) =
        Ret (0, sa\<lparr>vec := Handle (Some (set_length (ba\<lparr>data := d2\<rparr>) (?len + 1)))\<rparr>)"
    by blast
  note ba = add_page_if_needed_valid [OF valid s ap sa]
  have st: "get_start_of_data ba = block_header ba" using ba(1) by (rule start_of_data_valid)
  have es0: "0 \<le> ?es" by (rule vec_get_element_size_nonneg)
  have len0: "0 \<le> ?len" using valid by (simp add: valid_container_def)
  define a e m where "a = nat (i * ?es)" and "e = nat ?es" and "m = nat ((?len - i) * ?es)"
  have ia: "i * ?es = int a" using i es0 by (simp add: a_def)
  have ie: "?es = int e" using es0 by (simp add: e_def)
  have im: "(?len - i) * ?es = int m" using i es0 by (simp add: m_def)
  have lenes: "?len * ?es = int (a + m)" using ia im by (simp add: algebra_simps)
  have i1: "(i + 1) * ?es = int (a + e)" using ia ie by (simp add: algebra_simps)
  have room: "a + m + e \<le> length (data ba)"
  proof -
    have "(?len + 1) * ?es = int (a + m + e)" using lenes ie by (simp add: algebra_simps)
    then show ?thesis using ba(5) by simp
  qed
  have ev: "e \<le> length v" using v ie by simp
  let ?d = "data ba"
  have d1': "d1 = take (a + e) ?d @ take m (drop a ?d) @ drop (a + e + m) ?d"
    unfolding d1 i1 ia im by (simp add: nat_add_distrib)
  have d2': "d2 = take a d1 @ take e v @ drop (a + e) d1"
  proof -
    have "nat (i * ?es + ?es) = a + e" using ia ie by simp
    then show ?thesis unfolding d2 by (simp add: a_def e_def)
  qed
  have ld1: "length d1 = length ?d" using room by (simp add: d1')
  have ld2: "length d2 = length ?d" using room ld1 ev by (simp add: d2')
  let ?b1 = "set_length (ba\<lparr>data := d2\<rparr>) (?len + 1)"
  let ?s1 = "sa\<lparr>vec := Handle (Some ?b1)\<rparr>"
  have vs1: "vec ?s1 = Handle (Some ?b1)" by simp
  have es1: "vec_get_element_size ?b1 = ?es"
    using ba(2) by (simp add: helper_defs)
  have st1: "get_start_of_data ?b1 = block_header ?b1" using st by simp
  define d3 where "d3 = take a d2 @ take m (drop (a + e) d2) @ drop (a + m) d2"
  have mm3: "memmove_data ?b1 (block_header ?b1 + i * ?es) (block_header ?b1 + (i + 1) * ?es)
               ((?len + 1 - i - 1) * ?es) = Ret (?b1\<lparr>data := d3\<rparr>)"
  proof -
    have "memmove_data ?b1 (block_header ?b1 + int a) (block_header ?b1 + int (a + e)) (int m)
      = Ret (?b1\<lparr>data := take (nat (int a)) (data ?b1)
             @ take (nat (int m)) (drop (nat (int (a + e))) (data ?b1))
             @ drop (nat (int a + int m)) (data ?b1)\<rparr>)"
      by (rule memmove_data_ok) (use room ld2 in simp_all)
    then show ?thesis unfolding ia i1 d3_def using im by (simp add: nat_add_distrib)
  qed
  let ?b2 = "set_length (?b1\<lparr>data := d3\<rparr>) ?len"
  have ok': "ptrdiff_ok ?len" using lt len0 by (simp add: range_defs)
  have rm: "vvectorRemoveAt ?s1 i = Ret (0, ?s1\<lparr>vec := Handle (Some ?b2)\<rparr>)"
    using i mm3 ok' es1 st1
    by (simp add: vvectorRemoveAt_def Let_def index_is_invalid_def vvectorGetLength_def
        get_meta_def)
  have el: "elements ?b2 = elements b"
  proof -
    have "take (a + m) d3 = take (a + m) ?d"
      unfolding d3_def d2' d1' by (rule gap_roundtrip [OF room ev])
    moreover have "vec_get_element_size ?b2 = ?es" using ba(2) by (simp add: helper_defs)
    moreover have "nat (?len * ?es) = a + m" using lenes by simp
    ultimately show ?thesis
      using ba(6) by (simp add: elements_def)
  qed
  have es2: "vec_get_element_size ?b2 = ?es" using ba(2) by (simp add: helper_defs)
  show ?thesis
    using ins vs1 rm el es2
    by (intro exI [of _ ?s1] exI [of _ ?b1] exI [of _ "?s1\<lparr>vec := Handle (Some ?b2)\<rparr>"]
        exI [of _ ?b2]) simp
qed

lemma valid_two4: "valid_container buf_two4"
  by (simp add: valid_container_def buf_two4_def helper_defs range_defs)

lemma ins_two4: "vvectorInsertValueAt env_ok two4 1 (Some [9, 9, 9, 9]) = Ret (0, three4)"
  by (simp add: vvectorInsertValueAt_def add_page_if_needed_def two4_def three4_def buf_two4_def
      helper_defs range_defs Let_def memmove_data_def copy_value_def set_length_def
      block_header_def move_bytes_def put_bytes_def)

theorem insert_remove_inverse_witness:
  "valid_container buf_two4 \<and> vec two4 = Handle (Some buf_two4)
   \<and> vvectorInsertValueAt env_ok two4 1 (Some [9, 9, 9, 9]) = Ret (0, three4)
   \<and> (\<exists>s2 b2. vvectorRemoveAt three4 1 = Ret (0, s2) \<and> vec s2 = Handle (Some b2)
          \<and> length_elems (meta b2) = 2 \<and> elements b2 = [1, 2, 3, 4, 5, 6, 7, 8])
   \<and> valid_container buf_fresh4 \<and> vec fresh4 = Handle (Some buf_fresh4) \<and> is_full buf_fresh4
   \<and> (\<exists>s1 b1 s2 b2. vvectorInsertValueAt env_ok fresh4 0 (Some [9, 9, 9, 9]) = Ret (0, s1)
          \<and> vec s1 = Handle (Some b1) \<and> length_elems (meta b1) = 1
          \<and> vvectorRemoveAt s1 0 = Ret (0, s2) \<and> vec s2 = Handle (Some b2)
          \<and> length_elems (meta b2) = 0)"
proof -
  have v: "vec two4 = Handle (Some buf_two4)" by (simp add: two4_def)
  have i0: "(0::int) \<le> 1" by simp
  have l: "(1::int) \<le> length_elems (meta buf_two4)" by (simp add: buf_two4_def)
  have sz: "vec_get_element_size buf_two4 \<le> int (length [9, 9, 9, 9 :: byte])"
    by (simp add: buf_two4_def helper_defs)
  have lt: "length_elems (meta buf_two4) < PTRDIFF_MAX"
    by (simp add: buf_two4_def PTRDIFF_MAX_def)
  have nf: "\<not> is_full buf_two4" by (simp add: buf_two4_def helper_defs)
  have env: "is_full buf_two4 \<Longrightarrow> succeeds env_ok (length (calls two4))
      \<and> ptrdiff_ok (capacity (meta buf_two4) + NR_ELEM_IN_PAGE * vec_get_element_size buf_two4)"
    using nf by simp
  have e: "elements buf_two4 = [1, 2, 3, 4, 5, 6, 7, 8]"
    by (simp add: elements_def buf_two4_def helper_defs)
  have m: "length_elems (meta buf_two4) = 2" by (simp add: buf_two4_def)
  from insert_remove_inverse [OF valid_two4 v i0 l sz lt env]
  have two: "\<exists>s2 b2. vvectorRemoveAt three4 1 = Ret (0, s2) \<and> vec s2 = Handle (Some b2)
          \<and> length_elems (meta b2) = 2 \<and> elements b2 = [1, 2, 3, 4, 5, 6, 7, 8]"
    using ins_two4 e m by auto
  have i0': "(0::int) \<le> 0" by simp
  have l': "(0::int) \<le> length_elems (meta buf_fresh4)" by (simp add: buf_fresh4_def)
  have sz': "vec_get_element_size buf_fresh4 \<le> int (length [9, 9, 9, 9 :: byte])"
    by (simp add: buf_fresh4_def helper_defs)
  have lt': "length_elems (meta buf_fresh4) < PTRDIFF_MAX"
    by (simp add: buf_fresh4_def PTRDIFF_MAX_def)
  have full: "is_full buf_fresh4" by (simp add: buf_fresh4_def helper_defs)
  have env': "is_full buf_fresh4 \<Longrightarrow> succeeds env_ok (length (calls fresh4))
      \<and> ptrdiff_ok (capacity (meta buf_fresh4)
                      + NR_ELEM_IN_PAGE * vec_get_element_size buf_fresh4)"
    by (simp add: env_ok_def buf_fresh4_def helper_defs range_defs NR_ELEM_IN_PAGE_def)
  have m': "length_elems (meta buf_fresh4) = 0" by (simp add: buf_fresh4_def)
  from insert_remove_inverse [OF valid_buf_fresh4 vec_fresh4 i0' l' sz' lt' env']
  have fresh: "\<exists>s1 b1 s2 b2. vvectorInsertValueAt env_ok fresh4 0 (Some [9, 9, 9, 9]) = Ret (0, s1)
          \<and> vec s1 = Handle (Some b1) \<and> length_elems (meta b1) = 1
          \<and> vvectorRemoveAt s1 0 = Ret (0, s2) \<and> vec s2 = Handle (Some b2)
          \<and> length_elems (meta b2) = 0"
    using m' by auto
  show ?thesis
    using valid_two4 v ins_two4 two valid_buf_fresh4 vec_fresh4 full fresh by blast
qed

section \<open>Pages\<close>

lemma length_to_pages_cases:
  assumes "0 \<le> n"
  obtains q r where "n = 32 * q + r" "0 \<le> q" "0 \<le> r" "r < 32"
    "length_to_pages n NR_ELEM_IN_PAGE = (if r = 0 then q else q + 1)"
proof -
  define q r where "q = n div 32" and "r = n mod 32"
  have 1: "n = 32 * q + r" by (simp add: q_def r_def)
  have 2: "0 \<le> q" using assms by (simp add: q_def pos_imp_zdiv_nonneg_iff)
  have 3: "0 \<le> r" "r < 32" by (simp_all add: r_def)
  have 4: "length_to_pages n NR_ELEM_IN_PAGE = (if r = 0 then q else q + 1)"
    using assms by (simp add: length_to_pages_def NR_ELEM_IN_PAGE_def sdiv_nonneg smod_nonneg q_def r_def)
  show thesis using that 1 2 3 4 by blast
qed

lemma length_to_pages_nonneg:
  assumes "0 \<le> n"
  shows "0 \<le> length_to_pages n NR_ELEM_IN_PAGE"
proof -
  from assms obtain q r where "n = 32 * q + r" "0 \<le> q" "0 \<le> r" "r < 32"
    "length_to_pages n NR_ELEM_IN_PAGE = (if r = 0 then q else q + 1)"
    by (rule length_to_pages_cases)
  then show ?thesis by simp
qed

text \<open>\<^verbatim>\<open>length_to_pages\<close> is the ceiling of \<open>n / 32\<close>.\<close>

lemma length_to_pages_ceil:
  assumes "0 \<le> n"
  shows "n \<le> NR_ELEM_IN_PAGE * length_to_pages n NR_ELEM_IN_PAGE"
    and "NR_ELEM_IN_PAGE * (length_to_pages n NR_ELEM_IN_PAGE - 1) < n \<or> n = 0"
proof -
  from assms obtain q r where qr: "n = 32 * q + r" "0 \<le> q" "0 \<le> r" "r < 32"
    "length_to_pages n NR_ELEM_IN_PAGE = (if r = 0 then q else q + 1)"
    by (rule length_to_pages_cases)
  show "n \<le> NR_ELEM_IN_PAGE * length_to_pages n NR_ELEM_IN_PAGE"
    using qr by (simp add: NR_ELEM_IN_PAGE_def)
  show "NR_ELEM_IN_PAGE * (length_to_pages n NR_ELEM_IN_PAGE - 1) < n \<or> n = 0"
    using qr by (simp add: NR_ELEM_IN_PAGE_def)
qed

section \<open>Reserve and shrink-to-fit\<close>

lemma vvectorReserve_Ret:
  assumes "vec s = Handle (Some b)" and "vvectorReserve E s n = Ret (rc, s1)"
  shows "(n < 0 \<and> rc = 1 \<and> s1 = s)
         \<or> (0 \<le> n \<and> rc = VEC_ENOVEC \<and> vec s1 = Handle None \<and> mem s1 = mem s)
         \<or> (0 \<le> n \<and> rc = 0 \<and> mem s1 = mem s
             \<and> ptrdiff_ok (length_to_pages n NR_ELEM_IN_PAGE * vec_get_element_size b
                    * NR_ELEM_IN_PAGE + vec_get_capacity b)
             \<and> succeeds E (length (calls s))
             \<and> length (calls s1) = Suc (length (calls s))
             \<and> vec s1 = Handle (Some (resized E (length (calls s)) b
                   (length_to_pages n NR_ELEM_IN_PAGE * vec_get_element_size b
                      * NR_ELEM_IN_PAGE + vec_get_capacity b))))"
  using assms
  by (auto simp: vvectorReserve_def Let_def resized_def
      split: if_splits outcome.splits option.splits prod.splits dest!: do_realloc_Ret)





lemma vvectorReserve_valid:
  assumes "valid_container b" "vec s = Handle (Some b)" "vvectorReserve E s n = Ret (rc, s1)"
  shows "valid_state s1"
proof -
  let ?es = "vec_get_element_size b"
  let ?p = "length_to_pages n NR_ELEM_IN_PAGE"
  let ?c = "?p * ?es * NR_ELEM_IN_PAGE + vec_get_capacity b"
  from vvectorReserve_Ret [OF assms(2,3)]
  consider "s1 = s" | "vec s1 = Handle None"
    | "0 \<le> n" "ptrdiff_ok ?c" "vec s1 = Handle (Some (resized E (length (calls s)) b ?c))"
    by auto
  then show ?thesis
  proof cases
    case 1 then show ?thesis using assms(1,2) by (simp add: valid_state_def)
  next
    case 2 then show ?thesis by (simp add: valid_state_def)
  next
    case 3
    have es0: "0 \<le> ?es" by (rule vec_get_element_size_nonneg)
    have p0: "0 \<le> ?p" using 3(1) by (rule length_to_pages_nonneg)
    have add0: "0 \<le> ?p * ?es * NR_ELEM_IN_PAGE" using es0 p0 by (simp add: NR_ELEM_IN_PAGE_def)
    have eq: "?c - getLengthOfMetadata b
        = ?p * (NR_ELEM_IN_PAGE * ?es) + (capacity (meta b) - getLengthOfMetadata b)"
      by (simp add: vec_get_capacity_def get_meta_def algebra_simps)
    have dv: "(NR_ELEM_IN_PAGE * ?es) dvd (?c - getLengthOfMetadata b)"
      unfolding eq using assms(1) by (simp add: valid_container_def)
    have le: "length_elems (meta b) * ?es \<le> ?c - getLengthOfMetadata b"
      using assms(1) add0 by (simp add: valid_container_def vec_get_capacity_def get_meta_def)
    show ?thesis
      using valid_resized [OF assms(1) 3(2) dv le] 3(3) by (simp add: valid_state_def)
  qed
qed

text \<open>The pages of a valid container with a positive element size.\<close>

lemma nr_pages_available_valid:
  assumes "valid_container b" "0 < vec_get_element_size b"
  obtains k where "0 \<le> k"
    and "capacity (meta b) - getLengthOfMetadata b = NR_ELEM_IN_PAGE * vec_get_element_size b * k"
    and "nr_pages_available b = Ret k"
    and "nr_pages_used b \<le> k"
    and "length_elems (meta b) \<le> NR_ELEM_IN_PAGE * nr_pages_used b"
proof -
  let ?es = "vec_get_element_size b" and ?len = "length_elems (meta b)"
  let ?room = "capacity (meta b) - getLengthOfMetadata b"
  from assms(1) obtain k where k: "?room = NR_ELEM_IN_PAGE * ?es * k"
    by (auto simp: valid_container_def dvd_def)
  have len0: "0 \<le> ?len" and le: "?len * ?es \<le> ?room"
    using assms(1) by (simp_all add: valid_container_def)
  have "?len * ?es \<le> (NR_ELEM_IN_PAGE * k) * ?es"
    using le k by (simp add: mult.commute mult.left_commute)
  then have lk: "?len \<le> NR_ELEM_IN_PAGE * k"
    using assms(2) by (simp only: mult_le_cancel_right_pos)
  then have k0: "0 \<le> k" using len0 by (simp add: NR_ELEM_IN_PAGE_def)
  have "?room div ?es = 32 * k" using k assms(2) by (simp add: NR_ELEM_IN_PAGE_def)
  moreover have "0 \<le> ?room" using k k0 assms(2) by (simp add: NR_ELEM_IN_PAGE_def)
  ultimately have av: "nr_pages_available b = Ret k"
    using assms(2) k0
    by (simp add: nr_pages_available_def Let_def vec_get_capacity_def get_meta_def
        NR_ELEM_IN_PAGE_def sdiv_nonneg)
  have used: "nr_pages_used b = length_to_pages ?len NR_ELEM_IN_PAGE"
    by (simp add: nr_pages_used_def vvectorGetLength_def get_meta_def)
  have c1: "?len \<le> NR_ELEM_IN_PAGE * nr_pages_used b"
    unfolding used using len0 by (rule length_to_pages_ceil(1))
  have "NR_ELEM_IN_PAGE * (nr_pages_used b - 1) < ?len \<or> ?len = 0"
    unfolding used using len0 by (rule length_to_pages_ceil(2))
  moreover have "nr_pages_used b = 0" if "?len = 0"
    using that by (simp add: used length_to_pages_def NR_ELEM_IN_PAGE_def)
  ultimately have uk: "nr_pages_used b \<le> k"
    using lk k0 by (auto simp: NR_ELEM_IN_PAGE_def)
  show thesis using that k0 k av uk c1 by blast
qed

lemma vvectorShrinkToFit_Ret:
  assumes "vec s = Handle (Some b)" and "vvectorShrinkToFit E s = Ret (rc, s1)"
  shows "\<exists>avail. nr_pages_available b = Ret avail \<and>
         ((avail = nr_pages_used b \<and> rc = 0 \<and> s1 = s)
          \<or> (avail \<noteq> nr_pages_used b \<and> rc = 1 \<and> vec s1 = Handle None \<and> mem s1 = mem s)
          \<or> (avail \<noteq> nr_pages_used b \<and> rc = 0 \<and> mem s1 = mem s
              \<and> ptrdiff_ok (vec_get_capacity b
                     - (avail - nr_pages_used b) * vec_get_element_size b * NR_ELEM_IN_PAGE)
              \<and> succeeds E (length (calls s))
              \<and> vec s1 = Handle (Some (resized E (length (calls s)) b
                    (vec_get_capacity b
                     - (avail - nr_pages_used b) * vec_get_element_size b * NR_ELEM_IN_PAGE)))))"
  using assms
  by (auto simp: vvectorShrinkToFit_def has_empty_pages_def Let_def resized_def
      split: if_splits outcome.splits option.splits prod.splits dest!: do_realloc_Ret)

lemma vvectorShrinkToFit_valid:
  assumes "valid_container b" "vec s = Handle (Some b)" "vvectorShrinkToFit E s = Ret (rc, s1)"
  shows "valid_state s1"
proof -
  let ?es = "vec_get_element_size b" and ?len = "length_elems (meta b)"
  from vvectorShrinkToFit_Ret [OF assms(2,3)] obtain avail where
    av: "nr_pages_available b = Ret avail" and
    cases: "s1 = s \<or> vec s1 = Handle None
       \<or> (ptrdiff_ok (vec_get_capacity b - (avail - nr_pages_used b) * ?es * NR_ELEM_IN_PAGE)
           \<and> vec s1 = Handle (Some (resized E (length (calls s)) b
                (vec_get_capacity b - (avail - nr_pages_used b) * ?es * NR_ELEM_IN_PAGE))))"
    by auto
  have "?es \<noteq> 0" using av by (auto simp: nr_pages_available_def Let_def split: if_splits)
  then have pos: "0 < ?es" using vec_get_element_size_nonneg [of b] by simp
  from nr_pages_available_valid [OF assms(1) pos] av obtain
    k: "capacity (meta b) - getLengthOfMetadata b = NR_ELEM_IN_PAGE * ?es * avail"
    and c1: "?len \<le> NR_ELEM_IN_PAGE * nr_pages_used b"
    by auto
  let ?c = "vec_get_capacity b - (avail - nr_pages_used b) * ?es * NR_ELEM_IN_PAGE"
  have eq: "?c - getLengthOfMetadata b = (NR_ELEM_IN_PAGE * ?es) * nr_pages_used b"
    using k by (simp add: vec_get_capacity_def get_meta_def algebra_simps)
  have dv: "(NR_ELEM_IN_PAGE * ?es) dvd (?c - getLengthOfMetadata b)"
    unfolding eq by simp
  have "?len * ?es \<le> (NR_ELEM_IN_PAGE * nr_pages_used b) * ?es"
    using c1 pos by (simp only: mult_le_cancel_right_pos)
  then have le: "?len * ?es \<le> ?c - getLengthOfMetadata b"
    unfolding eq by (simp add: mult.commute mult.left_commute)
  from cases show ?thesis
  proof (elim disjE conjE)
    assume "s1 = s" then show ?thesis using assms(1,2) by (simp add: valid_state_def)
  next
    assume "vec s1 = Handle None" then show ?thesis by (simp add: valid_state_def)
  next
    assume "ptrdiff_ok ?c" and v: "vec s1 = Handle (Some (resized E (length (calls s)) b ?c))"
    from valid_resized [OF assms(1) this(1) dv le] v show ?thesis
      by (simp add: valid_state_def)
  qed
qed

text \<open>
  Shrink-to-fit on a valid container of positive element size: nothing happens when the
  allocated pages are the used pages; otherwise a successful reallocation leaves the
  header plus exactly the used pages, with the elements as they were.
\<close>

lemma shrink_to_fit_positive:
  assumes "valid_container b" "vec s = Handle (Some b)" "0 < vec_get_element_size b"
  shows "if nr_pages_available b = Ret (nr_pages_used b) then vvectorShrinkToFit E s = Ret (0, s)
         else if succeeds E (length (calls s)) then
           (\<exists>s1 b1. vvectorShrinkToFit E s = Ret (0, s1) \<and> vec s1 = Handle (Some b1)
              \<and> valid_container b1
              \<and> capacity (meta b1) = getLengthOfMetadata b
                    + nr_pages_used b * NR_ELEM_IN_PAGE * vec_get_element_size b
              \<and> nr_pages_available b1 = Ret (nr_pages_used b1)
              \<and> length_elems (meta b1) = length_elems (meta b)
              \<and> vec_get_element_size b1 = vec_get_element_size b
              \<and> elements b1 = elements b)
         else (\<exists>s1. vvectorShrinkToFit E s = Ret (1, s1) \<and> vec s1 = Handle None)"
proof -
  let ?es = "vec_get_element_size b" and ?len = "length_elems (meta b)"
  let ?hdr = "getLengthOfMetadata b" and ?used = "nr_pages_used b"
  from nr_pages_available_valid [OF assms(1,3)] obtain k where
    k0: "0 \<le> k" and k: "capacity (meta b) - ?hdr = NR_ELEM_IN_PAGE * ?es * k"
    and av: "nr_pages_available b = Ret k" and uk: "?used \<le> k"
    and c1: "?len \<le> NR_ELEM_IN_PAGE * ?used"
    by blast
  let ?c = "vec_get_capacity b - (k - ?used) * ?es * NR_ELEM_IN_PAGE"
  have len0: "0 \<le> ?len" using assms(1) by (simp add: valid_container_def)
  have used0: "0 \<le> ?used" using len0
    by (simp add: nr_pages_used_def vvectorGetLength_def get_meta_def length_to_pages_nonneg)
  have eq: "?c = ?hdr + ?used * NR_ELEM_IN_PAGE * ?es"
    using k by (simp add: vec_get_capacity_def get_meta_def algebra_simps)
  have bh: "block_header b = ?hdr" using assms(1) by (simp add: valid_container_def)
  have hdr: "24 \<le> ?hdr" by (simp add: helper_defs)
  have add0: "0 \<le> ?used * NR_ELEM_IN_PAGE * ?es"
    using used0 assms(3) by (simp add: NR_ELEM_IN_PAGE_def)
  have "(k - ?used) * ?es * NR_ELEM_IN_PAGE \<ge> 0"
    using uk assms(3) by (simp add: NR_ELEM_IN_PAGE_def)
  then have "?c \<le> capacity (meta b)" by (simp add: vec_get_capacity_def get_meta_def)
  moreover have "ptrdiff_ok (capacity (meta b))" using assms(1) by (simp add: valid_container_def)
  ultimately have ok: "ptrdiff_ok ?c"
    using hdr add0 unfolding eq by (simp add: range_defs)
  have hc: "block_header b \<le> ?c" using add0 unfolding eq bh by simp
  obtain f where f: "get_realloc b = Some f"
    using assms(1) by (auto simp: valid_container_def)
  show ?thesis
  proof (cases "k = ?used")
    case True
    then show ?thesis using av
      by (simp add: vvectorShrinkToFit_def assms(2) has_empty_pages_def Let_def)
  next
    case False
    show ?thesis
    proof (cases "succeeds E (length (calls s))")
      case True
      let ?b1 = "resized E (length (calls s)) b ?c"
      let ?s1 = "s\<lparr>calls := calls s @ [ReallocCall f ?c (vec_get_capacity b) (get_ctx b)],
                    vec := Handle (Some ?b1)\<rparr>"
      have run: "vvectorShrinkToFit E s = Ret (0, ?s1)"
        using av False ok do_realloc_success [OF f True hc]
        by (simp add: vvectorShrinkToFit_def assms(2) has_empty_pages_def Let_def resized_def)
      then have v1: "valid_container ?b1"
        using vvectorShrinkToFit_valid [OF assms(1,2) run] by (simp add: valid_state_def)
      have es1: "vec_get_element_size ?b1 = ?es" and hdr1: "getLengthOfMetadata ?b1 = ?hdr"
        by (simp_all add: helper_defs)
      have cap1: "capacity (meta ?b1) = ?hdr + ?used * NR_ELEM_IN_PAGE * ?es"
        using eq by simp
      have used1: "nr_pages_used ?b1 = ?used"
        by (simp add: nr_pages_used_def vvectorGetLength_def get_meta_def)
      have pos1: "0 < vec_get_element_size ?b1" using assms(3) by (simp only: es1)
      from nr_pages_available_valid [OF v1 pos1] obtain k' where
        k': "capacity (meta ?b1) - getLengthOfMetadata ?b1
               = NR_ELEM_IN_PAGE * vec_get_element_size ?b1 * k'"
        and av': "nr_pages_available ?b1 = Ret k'"
        by blast
      have "NR_ELEM_IN_PAGE * ?es * k' = NR_ELEM_IN_PAGE * ?es * ?used"
        using k' unfolding cap1 hdr1 es1 by (auto simp add: mult.commute mult.left_commute)
      then have "k' = ?used" using assms(3) by (simp add: NR_ELEM_IN_PAGE_def)
      then have av1: "nr_pages_available ?b1 = Ret (nr_pages_used ?b1)"
        using av' used1 by simp
      have "?len * ?es \<le> (NR_ELEM_IN_PAGE * ?used) * ?es"
        using c1 assms(3) by (simp only: mult_le_cancel_right_pos)
      then have fit: "?len * ?es \<le> ?c - ?hdr"
        unfolding eq by (simp add: mult.commute mult.left_commute)
      have dl: "?len * ?es \<le> int (length (data b))"
        using assms(1) by (simp add: valid_container_def)
      have le0: "0 \<le> ?len * ?es" using len0 assms(3) by simp
      have el: "elements ?b1 = elements b"
        unfolding elements_def es1 data_resized
        using fit dl le0 by (simp add: take_resize_data bh)
      show ?thesis
        using av False True run v1 cap1 av1 es1 el by simp
    next
      case nok: False
      have "vvectorShrinkToFit E s =
          Ret (1, s\<lparr>calls := calls s @ [ReallocCall f ?c (vec_get_capacity b) (get_ctx b)],
                    vec := Handle None\<rparr>)"
        using av False ok do_realloc_failure [OF f nok]
        by (simp add: vvectorShrinkToFit_def assms(2) has_empty_pages_def Let_def)
      then show ?thesis using av False nok by simp
    qed
  qed
qed

section \<open>Element operations keep the layout invariant\<close>

text \<open>Write, insert, push, remove: what a returning call leaves behind.\<close>

lemma vvectorWriteValueAt_Ret:
  assumes "vec s = Handle (Some b)" and "vvectorWriteValueAt s i val = Ret (rc, s1)"
    and "vec_get_element_size b = 0 \<or> (get_start_of_data b = block_header b \<and> 0 \<le> i)"
  shows "s1 = s \<or> (\<exists>d. length d = length (data b) \<and> s1 = s\<lparr>vec := Handle (Some (b\<lparr>data := d\<rparr>))\<rparr>)"
proof -
  let ?es = "vec_get_element_size b"
  have c: "?es = 0 \<or> block_header b \<le> get_start_of_data b + i * ?es"
    using assms(3) vec_get_element_size_nonneg [of b] by auto
  from assms(1,2) consider "s1 = s"
    | v b' where "copy_value b (get_start_of_data b + i * ?es) v ?es = Ret b'"
        "s1 = s\<lparr>vec := Handle (Some b')\<rparr>"
    by (auto simp: vvectorWriteValueAt_def Let_def
        split: if_splits option.splits outcome.splits)
  then show ?thesis
  proof cases
    case 1
    then show ?thesis by simp
  next
    case 2
    from copy_value_Ret [OF 2(1) c] show ?thesis using 2(2) by auto
  qed
qed

lemma valid_container_data:
  assumes "valid_container b" "length d = length (data b)"
  shows "valid_container (b\<lparr>data := d\<rparr>)"
  using assms by (simp add: valid_container_def)

lemma valid_container_set_length:
  assumes "valid_container b" "0 \<le> n"
    and "n * vec_get_element_size b \<le> capacity (meta b) - getLengthOfMetadata b"
  shows "valid_container (set_length b n)"
  using assms by (simp add: valid_container_def)

lemma vvectorWriteValueAt_valid:
  assumes "valid_container b" "vec s = Handle (Some b)" "0 \<le> i"
    and "vvectorWriteValueAt s i val = Ret (rc, s1)"
  shows "valid_state s1"
proof -
  have "vec_get_element_size b = 0 \<or> (get_start_of_data b = block_header b \<and> 0 \<le> i)"
    using assms(1,3) by (simp add: start_of_data_valid)
  from vvectorWriteValueAt_Ret [OF assms(2,4) this] assms(1,2) show ?thesis
    by (auto simp: valid_state_def valid_container_data)
qed

lemma vvectorInsertValueAt_Ret:
  assumes "vec s = Handle (Some b)" and "vvectorInsertValueAt E s i val = Ret (rc, s1)"
    and "vec_get_element_size b = 0 \<or> (get_start_of_data b = block_header b \<and> 0 \<le> i)"
  shows "\<exists>r sa ba. add_page_if_needed E s = Ret (r, sa) \<and> vec sa = Handle (Some ba)
           \<and> (s1 = sa
               \<or> (\<exists>d. length d = length (data ba) \<and> rc = 0
                     \<and> s1 = sa\<lparr>vec := Handle (Some (set_length (ba\<lparr>data := d\<rparr>)
                                                (length_elems (meta ba) + 1)))\<rparr>))"
proof -
  from assms(1,2) obtain r sa ba where
    ap: "add_page_if_needed E s = Ret (r, sa)" and sa: "vec sa = Handle (Some ba)"
    by (auto simp: vvectorInsertValueAt_def Let_def
        split: outcome.splits prod.splits vvector.splits option.splits)
  let ?es = "vec_get_element_size ba" and ?st = "get_start_of_data ba"
  let ?len = "length_elems (meta ba)"
  have same: "?es = vec_get_element_size b \<and> ?st = get_start_of_data b
      \<and> block_header ba = block_header b"
    using add_page_if_needed_Ret [OF assms(1) ap] sa assms(1) by auto
  have es0: "0 \<le> ?es" by (rule vec_get_element_size_nonneg)
  have lay: "?es = 0 \<or> (?st = block_header ba \<and> 0 \<le> i)"
    using assms(3) same by simp
  from assms(1,2) ap sa consider "s1 = sa"
    | v b1 b2 where
        "memmove_data ba (?st + (i + 1) * ?es) (?st + i * ?es) ((?len - i) * ?es) = Ret b1"
        "copy_value b1 (?st + i * ?es) v ?es = Ret b2" "rc = 0"
        "s1 = sa\<lparr>vec := Handle (Some (set_length b2 (length_elems (meta b2) + 1)))\<rparr>"
    by (auto simp: vvectorInsertValueAt_def Let_def get_meta_def vvectorGetLength_def
        split: outcome.splits option.splits if_splits)
  then have "s1 = sa
               \<or> (\<exists>d. length d = length (data ba) \<and> rc = 0
                     \<and> s1 = sa\<lparr>vec := Handle (Some (set_length (ba\<lparr>data := d\<rparr>)
                                                (length_elems (meta ba) + 1)))\<rparr>)"
  proof cases
    case 1
    then show ?thesis by simp
  next
    case 2
    have c1: "(?len - i) * ?es = 0
        \<or> (block_header ba \<le> ?st + (i + 1) * ?es \<and> block_header ba \<le> ?st + i * ?es)"
      using lay es0 by auto
    from memmove_data_Ret [OF 2(1) c1] obtain d1 where
      d1: "length d1 = length (data ba)" "b1 = ba\<lparr>data := d1\<rparr>"
      by blast
    have c2: "?es = 0 \<or> block_header b1 \<le> ?st + i * ?es"
      using lay es0 d1(2) by auto
    from copy_value_Ret [OF 2(2) c2] obtain d2 where
      d2: "length d2 = length (data b1)" "b2 = b1\<lparr>data := d2\<rparr>"
      by blast
    have "b2 = ba\<lparr>data := d2\<rparr>" "length d2 = length (data ba)"
      using d1 d2 by simp_all
    then show ?thesis using 2(3,4) by auto
  qed
  then show ?thesis using ap sa by blast
qed

lemma vvectorInsertValueAt_valid:
  assumes "valid_container b" "vec s = Handle (Some b)" "0 \<le> i"
    and "vvectorInsertValueAt E s i val = Ret (rc, s1)"
  shows "valid_state s1"
proof -
  have lay: "vec_get_element_size b = 0 \<or> (get_start_of_data b = block_header b \<and> 0 \<le> i)"
    using assms(1,3) by (simp add: start_of_data_valid)
  from vvectorInsertValueAt_Ret [OF assms(2,4) lay] obtain r sa ba where
    ap: "add_page_if_needed E s = Ret (r, sa)" and sa: "vec sa = Handle (Some ba)"
    and cases: "s1 = sa
               \<or> (\<exists>d. length d = length (data ba) \<and> rc = 0
                     \<and> s1 = sa\<lparr>vec := Handle (Some (set_length (ba\<lparr>data := d\<rparr>)
                                                (length_elems (meta ba) + 1)))\<rparr>)"
    by blast
  note ba = add_page_if_needed_valid [OF assms(1,2) ap sa]
  from cases show ?thesis
  proof
    assume "s1 = sa" then show ?thesis using ba(1) sa by (simp add: valid_state_def)
  next
    assume "\<exists>d. length d = length (data ba) \<and> rc = 0
                     \<and> s1 = sa\<lparr>vec := Handle (Some (set_length (ba\<lparr>data := d\<rparr>)
                                                (length_elems (meta ba) + 1)))\<rparr>"
    then obtain d where d: "length d = length (data ba)"
      and s1: "s1 = sa\<lparr>vec := Handle (Some (set_length (ba\<lparr>data := d\<rparr>)
                                                (length_elems (meta ba) + 1)))\<rparr>"
      by blast
    have v: "valid_container (ba\<lparr>data := d\<rparr>)" using ba(1) d by (rule valid_container_data)
    have es: "vec_get_element_size ba = vec_get_element_size b"
      using ba(2) by (simp add: helper_defs)
    have room: "int (length (data ba)) = capacity (meta ba) - getLengthOfMetadata ba"
      using ba(1) by (simp add: valid_container_def)
    have len0: "0 \<le> length_elems (meta ba) + 1" using ba(1) by (simp add: valid_container_def)
    have "valid_container (set_length (ba\<lparr>data := d\<rparr>) (length_elems (meta ba) + 1))"
      apply (rule valid_container_set_length [OF v])
      using len0 apply simp
      using ba(5) room by (simp add: es ba(3))
    then show ?thesis by (simp add: s1 valid_state_def)
  qed
qed

lemma vvectorPushBack_cases:
  assumes "vec s = Handle (Some b)"
  shows "vvectorPushBack E s None = Ret (VEC_ENOVALUE, s)"
    and "vvectorPushBack E s (Some v)
           = vvectorInsertValueAt E s (length_elems (meta b)) (Some v)"
  using assms
  by (auto simp: vvectorPushBack_def vvectorGetLength_def get_meta_def
      split: outcome.splits prod.splits)

lemma vvectorPushBack_valid:
  assumes "valid_container b" "vec s = Handle (Some b)" "vvectorPushBack E s val = Ret (rc, s1)"
  shows "valid_state s1"
proof (cases val)
  case None
  then show ?thesis using assms vvectorPushBack_cases(1) [OF assms(2), of E]
    by (simp add: valid_state_def)
next
  case (Some v)
  have "0 \<le> length_elems (meta b)" using assms(1) by (simp add: valid_container_def)
  moreover have "vvectorInsertValueAt E s (length_elems (meta b)) (Some v) = Ret (rc, s1)"
    using Some assms(3) vvectorPushBack_cases(2) [OF assms(2), of E v] by simp
  ultimately show ?thesis by (rule vvectorInsertValueAt_valid [OF assms(1,2)])
qed

lemma vvectorRemoveAt_Ret:
  assumes "vec s = Handle (Some b)" and "vvectorRemoveAt s i = Ret (rc, s1)"
    and "vec_get_element_size b = 0 \<or> i = length_elems (meta b) - 1
         \<or> (get_start_of_data b = block_header b \<and> 0 \<le> i)"
  shows "s1 = s
         \<or> (\<exists>d. length d = length (data b) \<and> rc = 0 \<and> i < length_elems (meta b)
               \<and> s1 = s\<lparr>vec := Handle (Some (set_length (b\<lparr>data := d\<rparr>)
                                                (length_elems (meta b) - 1)))\<rparr>)"
proof -
  let ?es = "vec_get_element_size b" and ?st = "get_start_of_data b"
  let ?len = "length_elems (meta b)"
  have es0: "0 \<le> ?es" by (rule vec_get_element_size_nonneg)
  from assms(1,2) consider "s1 = s"
    | b1 where
        "memmove_data b (?st + i * ?es) (?st + (i + 1) * ?es) ((?len - i - 1) * ?es) = Ret b1"
        "rc = 0" "i < ?len"
        "s1 = s\<lparr>vec := Handle (Some (set_length b1 (length_elems (meta b1) - 1)))\<rparr>"
    by (auto simp: vvectorRemoveAt_def Let_def get_meta_def index_is_invalid_def
        vvectorGetLength_def split: outcome.splits if_splits)
  then show ?thesis
  proof cases
    case 1
    then show ?thesis by simp
  next
    case 2
    have c: "(?len - i - 1) * ?es = 0
        \<or> (block_header b \<le> ?st + i * ?es \<and> block_header b \<le> ?st + (i + 1) * ?es)"
      using assms(3) es0 by auto
    from memmove_data_Ret [OF 2(1) c] obtain d where
      "length d = length (data b)" "b1 = b\<lparr>data := d\<rparr>"
      by blast
    then show ?thesis using 2(2,3,4) by auto
  qed
qed

lemma vvectorRemoveAt_valid:
  assumes "valid_container b" "vec s = Handle (Some b)" "0 \<le> i"
    and "vvectorRemoveAt s i = Ret (rc, s1)"
  shows "valid_state s1"
proof -
  have lay: "vec_get_element_size b = 0 \<or> i = length_elems (meta b) - 1
         \<or> (get_start_of_data b = block_header b \<and> 0 \<le> i)"
    using assms(1,3) by (simp add: start_of_data_valid)
  from vvectorRemoveAt_Ret [OF assms(2,4) lay]
  consider "s1 = s"
    | d where "length d = length (data b)" "i < length_elems (meta b)"
        "s1 = s\<lparr>vec := Handle (Some (set_length (b\<lparr>data := d\<rparr>) (length_elems (meta b) - 1)))\<rparr>"
    by blast
  then show ?thesis
  proof cases
    case 1 then show ?thesis using assms(1,2) by (simp add: valid_state_def)
  next
    case 2
    let ?es = "vec_get_element_size b" and ?len = "length_elems (meta b)"
    have v: "valid_container (b\<lparr>data := d\<rparr>)" using assms(1) 2(1) by (rule valid_container_data)
    have es0: "0 \<le> ?es" by (rule vec_get_element_size_nonneg)
    have "(?len - 1) * ?es \<le> ?len * ?es" using es0 by (simp add: mult_right_mono)
    then have fit: "(?len - 1) * ?es \<le> capacity (meta b) - getLengthOfMetadata b"
      using assms(1) by (simp add: valid_container_def)
    have "valid_container (set_length (b\<lparr>data := d\<rparr>) (?len - 1))"
      apply (rule valid_container_set_length [OF v])
      using assms(3) 2(2) apply simp
      using fit by simp
    then show ?thesis by (simp add: 2(3) valid_state_def)
  qed
qed

lemma vvectorRemoveBack_cases:
  assumes "vec s = Handle (Some b)"
  shows "vvectorRemoveBack s =
     (if length_elems (meta b) = 0 then Ret (2, s)
      else vvectorRemoveAt s (length_elems (meta b) - 1))"
  using assms
  by (auto simp: vvectorRemoveBack_def vvectorIsEmpty_def vvectorGetLength_def get_meta_def
      split: outcome.splits prod.splits)

lemma vvectorRemoveBack_valid:
  assumes "valid_container b" "vec s = Handle (Some b)" "vvectorRemoveBack s = Ret (rc, s1)"
  shows "valid_state s1"
proof (cases "length_elems (meta b) = 0")
  case True
  then show ?thesis using assms vvectorRemoveBack_cases [OF assms(2)]
    by (simp add: valid_state_def)
next
  case False
  then have nn: "0 \<le> length_elems (meta b) - 1"
    using assms(1) by (simp add: valid_container_def)
  have ra: "vvectorRemoveAt s (length_elems (meta b) - 1) = Ret (rc, s1)"
    using False assms(3) vvectorRemoveBack_cases [OF assms(2)] by simp
  show ?thesis by (rule vvectorRemoveAt_valid [OF assms(1,2) nn ra])
qed

section \<open>Sequences of calls\<close>

text \<open>On a null handle or a null buffer pointer every call returns without a change.\<close>

lemma invalid_handle_unchanged:
  assumes "vec s = NullVec \<or> vec s = Handle None" and "apply_operation E s x = Ret (rc, s1)"
  shows "s1 = s"
  using assms
  by (cases x)
     (auto simp: vvectorPushBack_def vvectorInsertValueAt_def vvectorWriteValueAt_def
        vvectorRemoveAt_def vvectorRemoveBack_def vvectorReserve_def vvectorShrinkToFit_def)

lemma run_invalid_handle:
  assumes "vec s = NullVec \<or> vec s = Handle None" and "run E s xs = Ret (rcs, s1)"
  shows "s1 = s"
  using assms
proof (induction xs arbitrary: rcs)
  case Nil
  then show ?case by simp
next
  case (Cons x xs)
  from Cons.prems(2) obtain rc sm rcs' where
    st: "apply_operation E s x = Ret (rc, sm)" and rest: "run E sm xs = Ret (rcs', s1)"
    by (auto split: outcome.splits prod.splits)
  have "sm = s" using Cons.prems(1) st by (rule invalid_handle_unchanged)
  then show ?case using Cons.IH [OF Cons.prems(1)] rest by simp
qed

text \<open>Every call keeps a valid state valid, when its index is not negative.\<close>

lemma apply_operation_valid:
  assumes "valid_state s" "index_nonneg x" "apply_operation E s x = Ret (rc, s1)"
  shows "valid_state s1"
proof (cases "vec s")
  case NullVec
  then show ?thesis using assms(1,3) invalid_handle_unchanged [of s E x rc s1] by simp
next
  case (Handle p)
  show ?thesis
  proof (cases p)
    case None
    then show ?thesis
      using Handle assms(1,3) invalid_handle_unchanged [of s E x rc s1] by simp
  next
    case (Some b)
    have v: "valid_container b" and s: "vec s = Handle (Some b)"
      using assms(1) Handle Some by (simp_all add: valid_state_def)
    show ?thesis
    proof (cases x)
      case (PushBack val)
      then show ?thesis using assms(3) vvectorPushBack_valid [OF v s] by simp
    next
      case (InsertValueAt i val)
      then show ?thesis using assms(2,3) vvectorInsertValueAt_valid [OF v s] by simp
    next
      case (WriteValueAt i val)
      then show ?thesis using assms(2,3) vvectorWriteValueAt_valid [OF v s] by simp
    next
      case (RemoveAt i)
      then show ?thesis using assms(2,3) vvectorRemoveAt_valid [OF v s] by simp
    next
      case RemoveBack
      then show ?thesis using assms(3) vvectorRemoveBack_valid [OF v s] by simp
    next
      case (Reserve n)
      then show ?thesis using assms(3) vvectorReserve_valid [OF v s] by simp
    next
      case ShrinkToFit
      then show ?thesis using assms(3) vvectorShrinkToFit_valid [OF v s] by simp
    qed
  qed
qed

lemma run_valid:
  assumes "valid_state s" "list_all index_nonneg xs" "run E s xs = Ret (rcs, s1)"
  shows "valid_state s1"
  using assms
proof (induction xs arbitrary: s rcs)
  case Nil
  then show ?case by simp
next
  case (Cons x xs)
  from Cons.prems(3) obtain rc sm rcs' where
    st: "apply_operation E s x = Ret (rc, sm)" and rest: "run E sm xs = Ret (rcs', s1)"
    by (auto split: outcome.splits prod.splits)
  have "valid_state sm"
    by (rule apply_operation_valid [OF Cons.prems(1) _ st]) (use Cons.prems(2) in simp)
  then show ?case using Cons.IH rest Cons.prems(2) by simp
qed

text \<open>
  With indices that are not negative, no call on a valid container, or on one of element
  size 0, writes the element size or the descriptor.
\<close>

lemma add_page_if_needed_frame:
  assumes "vec s = Handle (Some b)" "add_page_if_needed E s = Ret (r, sa)"
    and "vec sa = Handle (Some ba)"
  shows "same_layout b ba \<and> mem sa = mem s"
  using add_page_if_needed_Ret [OF assms(1,2)] assms(1,3)
  by (auto simp: same_layout_def)

lemma vvectorInsertValueAt_frame:
  assumes "vec s = Handle (Some b)" "vvectorInsertValueAt E s i val = Ret (rc, s1)"
    and "vec s1 = Handle (Some b1)"
    and "vec_get_element_size b = 0 \<or> (get_start_of_data b = block_header b \<and> 0 \<le> i)"
  shows "same_layout b b1"
proof -
  from vvectorInsertValueAt_Ret [OF assms(1,2,4)] obtain r sa ba where
    ap: "add_page_if_needed E s = Ret (r, sa)" and sa: "vec sa = Handle (Some ba)"
    and cases: "s1 = sa
               \<or> (\<exists>d. length d = length (data ba) \<and> rc = 0
                     \<and> s1 = sa\<lparr>vec := Handle (Some (set_length (ba\<lparr>data := d\<rparr>)
                                                (length_elems (meta ba) + 1)))\<rparr>)"
    by blast
  have "same_layout b ba" using add_page_if_needed_frame [OF assms(1) ap sa] by simp
  then show ?thesis using cases sa assms(3) by (auto simp: same_layout_def)
qed

lemma apply_operation_frame:
  assumes "vec s = Handle (Some b)" "apply_operation E s x = Ret (rc, s1)"
    and "vec s1 = Handle (Some b1)"
    and "valid_container b \<or> vec_get_element_size b = 0" and "index_nonneg x"
  shows "same_layout b b1"
proof (cases x)
  case (PushBack val)
  show ?thesis
  proof (cases val)
    case None
    then show ?thesis using PushBack assms vvectorPushBack_cases(1) [OF assms(1), of E]
      by (simp add: same_layout_def)
  next
    case (Some v)
    then have "vvectorInsertValueAt E s (length_elems (meta b)) (Some v) = Ret (rc, s1)"
      using PushBack assms(2) vvectorPushBack_cases(2) [OF assms(1), of E v] by simp
    moreover have "vec_get_element_size b = 0
        \<or> (get_start_of_data b = block_header b \<and> 0 \<le> length_elems (meta b))"
      using assms(4) by (auto simp: start_of_data_valid valid_container_def)
    ultimately show ?thesis using assms(1,3) by (blast intro: vvectorInsertValueAt_frame)
  qed
next
  case (InsertValueAt i val)
  then have "vvectorInsertValueAt E s i val = Ret (rc, s1)" using assms(2) by simp
  moreover have "vec_get_element_size b = 0 \<or> (get_start_of_data b = block_header b \<and> 0 \<le> i)"
    using assms(4,5) InsertValueAt by (auto simp: start_of_data_valid)
  ultimately show ?thesis using assms(1,3) by (blast intro: vvectorInsertValueAt_frame)
next
  case (WriteValueAt i val)
  then have w: "vvectorWriteValueAt s i val = Ret (rc, s1)" using assms(2) by simp
  have "vec_get_element_size b = 0 \<or> (get_start_of_data b = block_header b \<and> 0 \<le> i)"
    using assms(4,5) WriteValueAt by (auto simp: start_of_data_valid)
  from vvectorWriteValueAt_Ret [OF assms(1) w this] assms(1,3) show ?thesis
    by (auto simp: same_layout_def)
next
  case (RemoveAt i)
  then have r: "vvectorRemoveAt s i = Ret (rc, s1)" using assms(2) by simp
  have "vec_get_element_size b = 0 \<or> i = length_elems (meta b) - 1
         \<or> (get_start_of_data b = block_header b \<and> 0 \<le> i)"
    using assms(4,5) RemoveAt by (auto simp: start_of_data_valid)
  from vvectorRemoveAt_Ret [OF assms(1) r this] assms(1,3) show ?thesis
    by (auto simp: same_layout_def)
next
  case RemoveBack
  then have "vvectorRemoveBack s = Ret (rc, s1)" using assms(2) by simp
  then have "s1 = s \<or> vvectorRemoveAt s (length_elems (meta b) - 1) = Ret (rc, s1)"
    using vvectorRemoveBack_cases [OF assms(1)] by (auto split: if_splits)
  then show ?thesis
    using vvectorRemoveAt_Ret [OF assms(1), of "length_elems (meta b) - 1" rc s1] assms(1,3)
    by (auto simp: same_layout_def)
next
  case (Reserve n)
  then have "vvectorReserve E s n = Ret (rc, s1)" using assms(2) by simp
  from vvectorReserve_Ret [OF assms(1) this] assms(1,3) show ?thesis
    by (auto simp: same_layout_def)
next
  case ShrinkToFit
  then have "vvectorShrinkToFit E s = Ret (rc, s1)" using assms(2) by simp
  from vvectorShrinkToFit_Ret [OF assms(1) this] assms(1,3) show ?thesis
    by (auto simp: same_layout_def)
qed

lemma run_frame:
  assumes "vec s = Handle (Some b)" "run E s xs = Ret (rcs, s1)" "vec s1 = Handle (Some b1)"
    and "valid_container b \<or> vec_get_element_size b = 0" and "list_all index_nonneg xs"
  shows "same_layout b b1"
  using assms
proof (induction xs arbitrary: s b rcs)
  case Nil
  then show ?case by (simp add: same_layout_def)
next
  case (Cons x xs)
  from Cons.prems(2) obtain rc sm rcs' where
    st: "apply_operation E s x = Ret (rc, sm)" and rest: "run E sm xs = Ret (rcs', s1)"
    by (auto split: outcome.splits prod.splits)
  have nx: "index_nonneg x" and nxs: "list_all index_nonneg xs"
    using Cons.prems(5) by simp_all
  show ?case
  proof (cases "\<exists>bm. vec sm = Handle (Some bm)")
    case True
    then obtain bm where bm: "vec sm = Handle (Some bm)" by blast
    have l: "same_layout b bm"
      using Cons.prems(1) st bm Cons.prems(4) nx by (rule apply_operation_frame)
    have inv: "valid_container bm \<or> vec_get_element_size bm = 0"
    proof (cases "valid_container b")
      case True
      then have "valid_state s" using Cons.prems(1) by (simp add: valid_state_def)
      then have "valid_state sm" using nx st by (rule apply_operation_valid)
      then show ?thesis using bm by (simp add: valid_state_def)
    next
      case False
      then have "vec_get_element_size b = 0" using Cons.prems(4) by simp
      moreover have "vec_get_element_size bm = vec_get_element_size b"
        using l by (simp add: same_layout_def helper_defs)
      ultimately show ?thesis by simp
    qed
    have "same_layout bm b1" using bm rest Cons.prems(3) inv nxs by (rule Cons.IH)
    with l show ?thesis by (simp add: same_layout_def)
  next
    case False
    then have "vec sm = NullVec \<or> vec sm = Handle None"
      by (cases "vec sm") auto
    then have "s1 = sm" using rest by (rule run_invalid_handle)
    then show ?thesis using False Cons.prems(3) by simp
  qed
qed

lemma same_layout_helpers:
  assumes "same_layout b b1"
  shows "vec_get_element_size b1 = vec_get_element_size b"
    and "getLengthOfMetadata b1 = getLengthOfMetadata b"
    and "get_malloc b1 = get_malloc b"
    and "get_free b1 = get_free b"
    and "get_realloc b1 = get_realloc b"
    and "get_ctx b1 = get_ctx b"
  using assms by (simp_all add: same_layout_def helper_defs)

text \<open>The container that \<^verbatim>\<open>vec_new_\<close> returns.\<close>

lemma vec_new_Ret:
  assumes "vec_new E s n a = Ret s1" and "vec s1 = Handle (Some b)"
  shows "0 \<le> n \<and> mem s1 = mem s \<and> data b = [] \<and> length_elems (meta b) = 0
         \<and> (case a of
               None \<Rightarrow> desc b = None \<and> element_size (meta b) = n
                         \<and> capacity (meta b) = sizeof_vvectorMetadata
             | Some p \<Rightarrow> (\<exists>given. mem s p = Some given \<and> desc b = Some (normalise_alloc given))
                         \<and> element_size (meta b) = - n
                         \<and> capacity (meta b) = sizeof_vvectorMetadata + sizeof_vvectorAlloc)"
  using assms
  by (auto simp: vec_new_def do_malloc_def Let_def
      split: if_splits option.splits prod.splits)

lemma realloc_fn_normalise_alloc: "realloc_fn (normalise_alloc d) \<noteq> None"
  by (simp add: normalise_alloc_def split: option.splits)

lemma vec_new_valid:
  assumes "vec_new E s n a = Ret s1" and "0 < n \<or> a = None"
  shows "valid_state s1"
proof (cases "vec s1")
  case NullVec
  then show ?thesis by (simp add: valid_state_def)
next
  case (Handle p)
  show ?thesis
  proof (cases p)
    case None
    then show ?thesis using Handle by (simp add: valid_state_def)
  next
    case (Some b)
    then have vb: "vec s1 = Handle (Some b)" using Handle by simp
    note new = vec_new_Ret [OF assms(1) vb]
    show ?thesis
    proof (cases a)
      case None
      then have "valid_container b"
        using new by (simp add: valid_container_def helper_defs range_defs)
      then show ?thesis using vb by (simp add: valid_state_def)
    next
      case (Some q)
      then have "0 < n" using assms(2) by simp
      then have "valid_container b"
        using new Some realloc_fn_normalise_alloc
        by (auto simp: valid_container_def helper_defs range_defs)
      then show ?thesis using vb by (simp add: valid_state_def)
    qed
  qed
qed

text \<open>
  With non-negative indices, every state that a client reaches from a fresh container of
  positive element size and that holds a buffer satisfies the length and capacity
  invariant: the length is between 0 and the number of element slots, and the slots are a
  whole number of pages.
\<close>

lemma capacity_in_elements_valid:
  assumes "valid_container b" "0 < vec_get_element_size b"
  shows "0 \<le> length_elems (meta b) \<and> length_elems (meta b) \<le> capacity_in_elements b
         \<and> NR_ELEM_IN_PAGE dvd capacity_in_elements b"
proof -
  let ?es = "vec_get_element_size b" and ?len = "length_elems (meta b)"
  from nr_pages_available_valid [OF assms] obtain k where k0: "0 \<le> k"
    and k: "capacity (meta b) - getLengthOfMetadata b = NR_ELEM_IN_PAGE * ?es * k"
    by blast
  have "0 \<le> NR_ELEM_IN_PAGE * ?es * k" using k0 assms(2) by (simp add: NR_ELEM_IN_PAGE_def)
  moreover have "(NR_ELEM_IN_PAGE * ?es * k) div ?es = NR_ELEM_IN_PAGE * k"
    using assms(2) by simp
  ultimately have ce: "capacity_in_elements b = NR_ELEM_IN_PAGE * k"
    using assms(2) by (simp add: capacity_in_elements_def k sdiv_nonneg)
  have "?len * ?es \<le> (NR_ELEM_IN_PAGE * k) * ?es"
    using assms(1) k by (simp add: valid_container_def mult.commute mult.left_commute)
  then have "?len \<le> NR_ELEM_IN_PAGE * k"
    using assms(2) by (simp only: mult_le_cancel_right_pos)
  then show ?thesis using assms(1) ce by (simp add: valid_container_def)
qed

lemma length_capacity_invariant:
  assumes "0 < sizeof_type" "vec_new E s0 sizeof_type a = Ret s1"
    and "list_all index_nonneg xs" "run E s1 xs = Ret (rcs, s2)" "vec s2 = Handle (Some b)"
  shows "0 \<le> length_elems (meta b) \<and> length_elems (meta b) \<le> capacity_in_elements b
         \<and> NR_ELEM_IN_PAGE dvd capacity_in_elements b"
proof -
  have v1: "valid_state s1" using assms(2,1) by (simp add: vec_new_valid)
  then have "valid_state s2" using assms(3,4) by (rule run_valid)
  then have vb: "valid_container b" using assms(5) by (simp add: valid_state_def)
  have "\<exists>b1. vec s1 = Handle (Some b1)"
  proof (rule ccontr)
    assume "\<not> (\<exists>b1. vec s1 = Handle (Some b1))"
    then have "vec s1 = NullVec \<or> vec s1 = Handle None" by (cases "vec s1") auto
    then have "s2 = s1" using assms(4) by (rule run_invalid_handle)
    then show False using assms(5) \<open>vec s1 = NullVec \<or> vec s1 = Handle None\<close> by auto
  qed
  then obtain b1 where b1: "vec s1 = Handle (Some b1)" by blast
  have "vec_get_element_size b1 = sizeof_type"
    using vec_new_Ret [OF assms(2) b1] assms(1)
    by (cases a) (auto simp: helper_defs)
  moreover have "valid_container b1 \<or> vec_get_element_size b1 = 0"
    using v1 b1 by (simp add: valid_state_def)
  then have "same_layout b1 b" using b1 assms(4,5,3) by (blast intro: run_frame)
  ultimately have "0 < vec_get_element_size b"
    using assms(1) by (simp add: same_layout_helpers)
  with vb show ?thesis by (rule capacity_in_elements_valid)
qed

section \<open>The length and capacity invariant (C4)\<close>

text \<open>
  C4 says that after every sequence of operations on a fresh container the length is
  between 0 and the capacity in elements. \<^verbatim>\<open>vvectorRemoveAt\<close> rejects an index through
  \<^verbatim>\<open>index_is_invalid\<close>, which tests only \<^verbatim>\<open>index >= length\<close>: on the fresh, empty
  container of 4-byte elements, \<^verbatim>\<open>vvectorRemoveAt(vec, -1)\<close> moves
  \<open>(0 - (-1) - 1) * 4 = 0\<close> bytes, decrements the length and returns 0. The length is
  then -1. With non-negative indices the invariant holds (\<open>length_capacity_invariant\<close>).
\<close>

theorem remove_negative_index_breaks_length:
  "vvectorRemoveAt fresh4 (- 1) = Ret (0, negative4)
   \<and> vvectorGetLength (vec negative4) = - 1"
  by (simp add: vvectorRemoveAt_def memmove_data_def set_length_def fresh4_def negative4_def
      helper_defs range_defs Let_def)

section \<open>Shrink-to-fit (C6)\<close>

text \<open>
  C6 says that shrink-to-fit is a no-op when the allocated pages are the pages needed,
  and otherwise reallocates down to the header plus the used pages. For a positive
  element size this is \<open>shrink_to_fit_positive\<close>. \<^verbatim>\<open>vec_new_\<close> accepts the element size
  0; on the container it returns, which has no page allocated and needs none,
  \<^verbatim>\<open>nr_pages_available\<close> divides the element bytes by the element size 0.
\<close>

theorem shrink_to_fit_zero_element_size:
  "vec_new env_ok s_init 0 None = Ret fresh0
   \<and> vvectorShrinkToFit env_ok fresh0 = Crash DivByZero"
  by (simp add: fresh0_created vvectorShrinkToFit_def fresh0_def helper_defs Let_def)

section \<open>Reserve, then push (C7)\<close>

text \<open>A push onto a valid container with room calls no allocator function.\<close>

lemma push_back_room:
  assumes "valid_container b" "vec s = Handle (Some b)" "0 < vec_get_element_size b"
    and "(length_elems (meta b) + 1) * vec_get_element_size b
           \<le> capacity (meta b) - getLengthOfMetadata b"
    and "vec_get_element_size b \<le> int (length v)"
  shows "\<exists>d. length d = length (data b)
           \<and> vvectorPushBack E s (Some v) =
               Ret (0, s\<lparr>vec := Handle (Some (set_length (b\<lparr>data := d\<rparr>)
                                              (length_elems (meta b) + 1)))\<rparr>)"
proof -
  let ?es = "vec_get_element_size b" and ?len = "length_elems (meta b)"
  let ?room = "capacity (meta b) - getLengthOfMetadata b"
  have len0: "0 \<le> ?len" and dl: "int (length (data b)) = ?room"
    and capok: "ptrdiff_ok (capacity (meta b))"
    using assms(1) by (simp_all add: valid_container_def)
  have le0: "0 \<le> ?len * ?es" using len0 assms(3) by simp
  have "?len * ?es < (?len + 1) * ?es" using assms(3) by (simp add: algebra_simps)
  then have nf: "\<not> is_full b" using assms(4) by (simp add: is_full_iff)
  then have ap: "add_page_if_needed E s = Ret (0, s)"
    by (simp add: add_page_if_needed_def assms(2))
  have st: "get_start_of_data b = block_header b" using assms(1) by (rule start_of_data_valid)
  have fit: "?len * ?es + ?es \<le> int (length (data b))"
    using assms(4) dl by (simp add: algebra_simps)
  define d where "d = take (nat (?len * ?es)) (data b) @ take (nat ?es) v
                        @ drop (nat (?len * ?es + ?es)) (data b)"
  have cp: "copy_value b (block_header b + ?len * ?es) v ?es = Ret (b\<lparr>data := d\<rparr>)"
    unfolding d_def by (rule copy_value_ok) (use assms(3,5) le0 fit in simp_all)
  have ld: "length d = length (data b)"
    using copy_value_length [OF cp] le0 by simp
  have "24 \<le> getLengthOfMetadata b" by (simp add: helper_defs)
  moreover have "?len + 1 \<le> (?len + 1) * ?es"
    using assms(3) len0 by (simp add: mult_le_cancel_left1)
  ultimately have "?len + 1 \<le> capacity (meta b)" using assms(4) by linarith
  then have ok: "ptrdiff_ok (?len + 1)" using capok len0 by (simp add: range_defs)
  have "vvectorInsertValueAt E s ?len (Some v) =
          Ret (0, s\<lparr>vec := Handle (Some (set_length (b\<lparr>data := d\<rparr>) (?len + 1)))\<rparr>)"
    using ap cp ok
    by (simp add: vvectorInsertValueAt_def assms(2) Let_def vvectorGetLength_def get_meta_def st)
  then show ?thesis using ld vvectorPushBack_cases(2) [OF assms(2), of E v] by auto
qed

lemma push_all_room:
  assumes "valid_container b" "vec s = Handle (Some b)" "0 < vec_get_element_size b"
    and "(length_elems (meta b) + int (length vs)) * vec_get_element_size b
           \<le> capacity (meta b) - getLengthOfMetadata b"
    and "list_all (\<lambda>v. vec_get_element_size b \<le> int (length v)) vs"
  shows "\<exists>s1 b1. run E s (map (\<lambda>v. PushBack (Some v)) vs) = Ret (replicate (length vs) 0, s1)
           \<and> calls s1 = calls s \<and> vec s1 = Handle (Some b1)
           \<and> length_elems (meta b1) = length_elems (meta b) + int (length vs)
           \<and> capacity (meta b1) = capacity (meta b)"
  using assms
proof (induction vs arbitrary: s b)
  case Nil
  then show ?case by simp
next
  case (Cons v vs)
  let ?es = "vec_get_element_size b" and ?len = "length_elems (meta b)"
  have es0: "0 \<le> ?es" by (rule vec_get_element_size_nonneg)
  have "(?len + 1) * ?es \<le> (?len + int (length (v # vs))) * ?es"
    using es0 by (intro mult_right_mono) simp_all
  then have room1: "(?len + 1) * ?es \<le> capacity (meta b) - getLengthOfMetadata b"
    using Cons.prems(4) by linarith
  have vl: "?es \<le> int (length v)" using Cons.prems(5) by simp
  from push_back_room [OF Cons.prems(1,2,3) room1 vl, of E] obtain d where
    ld: "length d = length (data b)"
    and push: "vvectorPushBack E s (Some v) =
               Ret (0, s\<lparr>vec := Handle (Some (set_length (b\<lparr>data := d\<rparr>) (?len + 1)))\<rparr>)"
    by blast
  let ?b1 = "set_length (b\<lparr>data := d\<rparr>) (?len + 1)"
  let ?s1 = "s\<lparr>vec := Handle (Some ?b1)\<rparr>"
  have v1: "valid_container ?b1"
    apply (rule valid_container_set_length)
      apply (rule valid_container_data [OF Cons.prems(1) ld])
    using Cons.prems(1) apply (simp add: valid_container_def)
    using room1 by simp
  have room': "(length_elems (meta ?b1) + int (length vs)) * vec_get_element_size ?b1
           \<le> capacity (meta ?b1) - getLengthOfMetadata ?b1"
    using Cons.prems(4) by (simp add: algebra_simps)
  have all': "list_all (\<lambda>v. vec_get_element_size ?b1 \<le> int (length v)) vs"
    using Cons.prems(5) by simp
  have pos': "0 < vec_get_element_size ?b1" using Cons.prems(3) by simp
  have vs1: "vec ?s1 = Handle (Some ?b1)" by simp
  from Cons.IH [OF v1 vs1 pos' room' all'] obtain s2 b2 where
    "run E ?s1 (map (\<lambda>v. PushBack (Some v)) vs) = Ret (replicate (length vs) 0, s2)"
    "calls s2 = calls ?s1" "vec s2 = Handle (Some b2)"
    "length_elems (meta b2) = length_elems (meta ?b1) + int (length vs)"
    "capacity (meta b2) = capacity (meta ?b1)"
    by blast
  then show ?case using push by simp
qed

text \<open>
  C7 for a positive element size: a negative count is rejected with code 1 and no change;
  a \<^verbatim>\<open>reserve(n)\<close> that succeeds adds \<open>length_to_pages n 32 * element_size * 32\<close> bytes
  to the capacity, and then any \<open>n\<close> or fewer \<^verbatim>\<open>push_back\<close> calls all return 0 and leave
  the log of allocator calls as it was.
\<close>

theorem reserve_then_push_back:
  assumes "valid_container b" "vec s = Handle (Some b)" "0 < vec_get_element_size b"
  shows "(n < 0 \<longrightarrow> vvectorReserve E s n = Ret (1, s))
    \<and> (\<forall>s1 vs. vvectorReserve E s n = Ret (0, s1) \<and> int (length vs) \<le> n
            \<and> list_all (\<lambda>v. vec_get_element_size b \<le> int (length v)) vs
          \<longrightarrow> (\<exists>b1 s2 b2. vec s1 = Handle (Some b1)
                \<and> capacity (meta b1) = length_to_pages n NR_ELEM_IN_PAGE
                       * vec_get_element_size b * NR_ELEM_IN_PAGE + capacity (meta b)
                \<and> run E s1 (map (\<lambda>v. PushBack (Some v)) vs) = Ret (replicate (length vs) 0, s2)
                \<and> calls s2 = calls s1 \<and> vec s2 = Handle (Some b2)
                \<and> length_elems (meta b2) = length_elems (meta b) + int (length vs)
                \<and> capacity (meta b2) = capacity (meta b1)))"
proof (intro conjI impI allI)
  assume "n < 0"
  then show "vvectorReserve E s n = Ret (1, s)"
    by (simp add: vvectorReserve_def assms(2))
next
  fix s1 and vs :: "byte list list"
  assume a: "vvectorReserve E s n = Ret (0, s1) \<and> int (length vs) \<le> n
            \<and> list_all (\<lambda>v. vec_get_element_size b \<le> int (length v)) vs"
  let ?es = "vec_get_element_size b" and ?len = "length_elems (meta b)"
  let ?p = "length_to_pages n NR_ELEM_IN_PAGE"
  let ?c = "?p * ?es * NR_ELEM_IN_PAGE + vec_get_capacity b"
  let ?b1 = "resized E (length (calls s)) b ?c"
  from a have res: "vvectorReserve E s n = Ret (0, s1)" and ln: "int (length vs) \<le> n"
    and all: "list_all (\<lambda>v. ?es \<le> int (length v)) vs"
    by simp_all
  from vvectorReserve_Ret [OF assms(2) res] have n0: "0 \<le> n" and vs1: "vec s1 = Handle (Some ?b1)"
    by (auto simp: VEC_ENOVEC_def)
  have v1: "valid_container ?b1"
    using vvectorReserve_valid [OF assms(1,2) res] vs1 by (simp add: valid_state_def)
  have cap1: "capacity (meta ?b1) = ?p * ?es * NR_ELEM_IN_PAGE + capacity (meta b)"
    by (simp add: vec_get_capacity_def get_meta_def)
  have "n \<le> NR_ELEM_IN_PAGE * ?p" using n0 by (rule length_to_pages_ceil(1))
  then have "int (length vs) \<le> NR_ELEM_IN_PAGE * ?p" using ln by simp
  then have "int (length vs) * ?es \<le> (NR_ELEM_IN_PAGE * ?p) * ?es"
    using assms(3) by (simp only: mult_le_cancel_right_pos)
  moreover have "?len * ?es \<le> capacity (meta b) - getLengthOfMetadata b"
    using assms(1) by (simp add: valid_container_def)
  ultimately have room: "(length_elems (meta ?b1) + int (length vs)) * vec_get_element_size ?b1
           \<le> capacity (meta ?b1) - getLengthOfMetadata ?b1"
    unfolding cap1 by (simp add: algebra_simps)
  have pos1: "0 < vec_get_element_size ?b1" using assms(3) by simp
  have all1: "list_all (\<lambda>v. vec_get_element_size ?b1 \<le> int (length v)) vs" using all by simp
  from push_all_room [OF v1 vs1 pos1 room all1, of E] obtain s2 b2 where
    "run E s1 (map (\<lambda>v. PushBack (Some v)) vs) = Ret (replicate (length vs) 0, s2)"
    "calls s2 = calls s1" "vec s2 = Handle (Some b2)"
    "length_elems (meta b2) = length_elems (meta ?b1) + int (length vs)"
    "capacity (meta b2) = capacity (meta ?b1)"
    by blast
  then show "\<exists>b1 s2 b2. vec s1 = Handle (Some b1)
                \<and> capacity (meta b1) = length_to_pages n NR_ELEM_IN_PAGE
                       * vec_get_element_size b * NR_ELEM_IN_PAGE + capacity (meta b)
                \<and> run E s1 (map (\<lambda>v. PushBack (Some v)) vs) = Ret (replicate (length vs) 0, s2)
                \<and> calls s2 = calls s1 \<and> vec s2 = Handle (Some b2)
                \<and> length_elems (meta b2) = length_elems (meta b) + int (length vs)
                \<and> capacity (meta b2) = capacity (meta b1)"
    using vs1 cap1 by simp
qed

lemma reserve_fresh4: "vvectorReserve env_ok fresh4 1 = Ret (0, grown4)"
  by (simp add: vvectorReserve_def do_realloc_def fresh4_def grown4_def helper_defs env_ok_def
      range_defs set_capacity_def resize_data_def Let_def sdiv_nonneg smod_nonneg map_const_upt)

theorem reserve_then_push_back_witness:
  "valid_container buf_fresh4 \<and> vec fresh4 = Handle (Some buf_fresh4)
   \<and> 0 < vec_get_element_size buf_fresh4
   \<and> vvectorReserve env_ok fresh4 (- 1) = Ret (1, fresh4)
   \<and> vvectorReserve env_ok fresh4 1 = Ret (0, grown4)
   \<and> (\<exists>s2. run env_ok grown4 [PushBack (Some [1, 2, 3, 4])] = Ret ([0], s2)
          \<and> calls s2 = calls grown4)"
proof -
  have p: "0 < vec_get_element_size buf_fresh4" by (simp add: buf_fresh4_def helper_defs)
  note t = reserve_then_push_back [OF valid_buf_fresh4 vec_fresh4 p, of _ env_ok]
  have neg: "vvectorReserve env_ok fresh4 (- 1) = Ret (1, fresh4)"
    using t [of "- 1"] by simp
  have prem: "vvectorReserve env_ok fresh4 1 = Ret (0, grown4)
      \<and> int (length [[1, 2, 3, 4 :: byte]]) \<le> 1
      \<and> list_all (\<lambda>v. vec_get_element_size buf_fresh4 \<le> int (length v)) [[1, 2, 3, 4 :: byte]]"
    by (simp add: reserve_fresh4 buf_fresh4_def helper_defs)
  from t [of 1, THEN conjunct2, rule_format, OF prem]
  have "\<exists>s2. run env_ok grown4 [PushBack (Some [1, 2, 3, 4])] = Ret ([0], s2)
          \<and> calls s2 = calls grown4"
    by auto
  then show ?thesis using valid_buf_fresh4 vec_fresh4 p neg reserve_fresh4 by simp
qed

lemma reserve_fresh0: "vvectorReserve env_ok fresh0 1 = Ret (0, reserved0)"
  by (simp add: vvectorReserve_def do_realloc_def fresh0_def reserved0_def buf_fresh0_def
      helper_defs env_ok_def range_defs set_capacity_def resize_data_def Let_def
      sdiv_nonneg smod_nonneg)

lemma push_reserved0: "vvectorPushBack env_ok reserved0 (Some [7]) = Ret (0, pushed0)"
  by (simp add: vvectorPushBack_def vvectorInsertValueAt_def add_page_if_needed_def
      do_realloc_def memmove_data_def copy_value_def set_length_def
      reserved0_def pushed0_def buf_fresh0_def helper_defs env_ok_def
      range_defs set_capacity_def resize_data_def Let_def)

text \<open>
  C7 as stated, for every valid container, fails for element size 0: the buffer is
  full whatever its length, so after a successful \<^verbatim>\<open>reserve(1)\<close> the \<^verbatim>\<open>push_back\<close> calls
  the reallocate function again.
\<close>

theorem reserve_zero_element_size_counterexample:
  "valid_container buf_fresh0 \<and> vec fresh0 = Handle (Some buf_fresh0)
   \<and> vvectorReserve env_ok fresh0 1 = Ret (0, reserved0)
   \<and> vvectorPushBack env_ok reserved0 (Some [7]) = Ret (0, pushed0)
   \<and> calls pushed0 = calls reserved0 @ [ReallocCall vvector_lib_realloc 24 24 0]"
  using valid_buf_fresh0 vec_fresh0 reserve_fresh0 push_reserved0
  by (simp add: reserved0_def pushed0_def)

section \<open>Element size zero (C10)\<close>

lemma vec_new_negative: "n < 0 \<Longrightarrow> vec_new E s n a = Ret (s\<lparr>vec := NullVec\<rparr>)"
  by (simp add: vec_new_def)

text \<open>With an allocator that does not fail, \<^verbatim>\<open>vec_new_\<close> returns a container for every
  element size that is not negative.\<close>

lemma vec_new_success:
  assumes "\<forall>k. succeeds E k" "0 \<le> n"
    and "case allocator of None \<Rightarrow> True | Some p \<Rightarrow> mem s p \<noteq> None"
  shows "\<exists>s1 b1. vec_new E s n allocator = Ret s1 \<and> vec s1 = Handle (Some b1)
           \<and> length_elems (meta b1) = 0 \<and> vec_get_element_size b1 = n"
proof (cases allocator)
  case None
  then show ?thesis using assms(1,2)
    by (simp add: vec_new_def do_malloc_def Let_def helper_defs)
next
  case (Some p)
  then obtain given where g: "mem s p = Some given" using assms(3) by auto
  obtain f where f: "malloc_fn (normalise_alloc given) = Some f"
    by (cases "malloc_fn given") (simp_all add: normalise_alloc_def)
  show ?thesis using Some g f assms(1,2)
    by (simp add: vec_new_def do_malloc_def Let_def helper_defs)
qed

text \<open>
  A valid container of element size 0 has no element bytes, its capacity is its header,
  and it is full whatever its length.
\<close>

lemma zero_size_valid:
  assumes "valid_container b" "vec_get_element_size b = 0"
  shows "data b = []" and "capacity (meta b) = block_header b" and "is_full b"
  using assms by (auto simp: valid_container_def is_full_iff)

lemma get_ctx_set_length [simp]: "get_ctx (set_length b n) = get_ctx b"
  by (simp add: helper_defs set_length_def)

text \<open>
  So every \<^verbatim>\<open>push_back\<close> on it takes the growth step: one call of the reallocate
  function that asks for the capacity the block already has. The push returns 0 and
  only the length changes.
\<close>

lemma zero_size_push:
  assumes "valid_container b" "vec_get_element_size b = 0" "vec s = Handle (Some b)"
    and "get_realloc b = Some f" "succeeds E (length (calls s))"
    and "length_elems (meta b) < PTRDIFF_MAX"
  shows "vvectorPushBack E s (Some v) =
     Ret (0, s\<lparr>calls := calls s @ [ReallocCall f (capacity (meta b)) (capacity (meta b))
                                      (get_ctx b)],
              vec := Handle (Some (set_length b (length_elems (meta b) + 1)))\<rparr>)"
proof -
  let ?len = "length_elems (meta b)" and ?cap = "capacity (meta b)"
  note z = zero_size_valid [OF assms(1,2)]
  have len0: "0 \<le> ?len" and capok: "ptrdiff_ok ?cap"
    using assms(1) by (simp_all add: valid_container_def)
  have ok: "ptrdiff_ok (?len + 1)" using len0 assms(6) by (simp add: range_defs)
  have hc: "block_header b \<le> ?cap" using z(2) by simp
  have same: "set_capacity (b\<lparr>data := resize_data E (length (calls s)) (data b)
                                    (nat (?cap - block_header b))\<rparr>) ?cap = b"
    using z(1,2) by (simp add: set_capacity_def resize_data_def)
  have ap: "add_page_if_needed E s =
      Ret (0, s\<lparr>calls := calls s @ [ReallocCall f ?cap ?cap (get_ctx b)],
               vec := Handle (Some b)\<rparr>)"
    using z(3) capok assms(2) do_realloc_success [OF assms(4,5) hc, of ?cap "get_ctx b"] same
    by (simp add: add_page_if_needed_def assms(3) Let_def vec_get_capacity_def get_meta_def)
  have "vvectorInsertValueAt E s ?len (Some v) =
     Ret (0, s\<lparr>calls := calls s @ [ReallocCall f ?cap ?cap (get_ctx b)],
              vec := Handle (Some (set_length b (?len + 1)))\<rparr>)"
    using ap ok assms(2)
    by (simp add: vvectorInsertValueAt_def assms(3) Let_def vvectorGetLength_def get_meta_def)
  then show ?thesis using vvectorPushBack_cases(2) [OF assms(3), of E v] by simp
qed

lemma zero_size_push_all:
  assumes "valid_container b" "vec_get_element_size b = 0" "vec s = Handle (Some b)"
    and "get_realloc b = Some f" "\<forall>k. succeeds E k"
    and "length_elems (meta b) + int (length vs) \<le> PTRDIFF_MAX"
  shows "\<exists>s1. run E s (map (\<lambda>v. PushBack (Some v)) vs) = Ret (replicate (length vs) 0, s1)
           \<and> vec s1 = Handle (Some (set_length b (length_elems (meta b) + int (length vs))))
           \<and> valid_container (set_length b (length_elems (meta b) + int (length vs)))
           \<and> calls s1 = calls s @ replicate (length vs)
                 (ReallocCall f (capacity (meta b)) (capacity (meta b)) (get_ctx b))"
  using assms
proof (induction vs arbitrary: s b)
  case Nil
  then show ?case by (simp add: set_length_def)
next
  case (Cons v vs)
  let ?len = "length_elems (meta b)" and ?cap = "capacity (meta b)"
  let ?c = "ReallocCall f ?cap ?cap (get_ctx b)"
  let ?bm = "set_length b (?len + 1)"
  let ?sm = "s\<lparr>calls := calls s @ [?c], vec := Handle (Some ?bm)\<rparr>"
  have lt: "?len < PTRDIFF_MAX" using Cons.prems(6) by simp
  have sk: "succeeds E (length (calls s))" using Cons.prems(5) by simp
  have push: "vvectorPushBack E s (Some v) = Ret (0, ?sm)"
    by (rule zero_size_push [OF Cons.prems(1,2,3,4) sk lt])
  have len0: "0 \<le> ?len" using Cons.prems(1) by (simp add: valid_container_def)
  have vm: "valid_container ?bm"
    by (rule valid_container_set_length [OF Cons.prems(1)])
       (use len0 Cons.prems(1,2) in \<open>simp_all add: valid_container_def\<close>)
  have em: "vec_get_element_size ?bm = 0" using Cons.prems(2) by simp
  have sm: "vec ?sm = Handle (Some ?bm)" by simp
  have rm: "get_realloc ?bm = Some f" using Cons.prems(4) by simp
  have room: "length_elems (meta ?bm) + int (length vs) \<le> PTRDIFF_MAX"
    using Cons.prems(6) by simp
  from Cons.IH [OF vm em sm rm Cons.prems(5) room] obtain s1 where
    r: "run E ?sm (map (\<lambda>v. PushBack (Some v)) vs) = Ret (replicate (length vs) 0, s1)"
    and v1: "vec s1 = Handle (Some (set_length ?bm (length_elems (meta ?bm) + int (length vs))))"
    and va: "valid_container (set_length ?bm (length_elems (meta ?bm) + int (length vs)))"
    and c1: "calls s1 = calls ?sm @ replicate (length vs)
                 (ReallocCall f (capacity (meta ?bm)) (capacity (meta ?bm)) (get_ctx ?bm))"
    by blast
  have eq: "set_length ?bm (length_elems (meta ?bm) + int (length vs))
              = set_length b (?len + int (length (v # vs)))"
    by (simp add: set_length_def add.assoc)
  show ?case
    using push r v1 va c1 unfolding eq by (simp add: replicate_append_same)
qed

text \<open>
  With the default allocator (a null descriptor) the claim holds: \<^verbatim>\<open>vec_new_(0, 0)\<close>
  returns a valid empty container whose capacity is the size of the metadata, every
  \<^verbatim>\<open>push_back\<close> of a non-null value returns 0 and makes the length one more, the
  container stays valid and its capacity stays what it was, and each push has made one
  reallocation that asks for the 24 bytes the block already has.
\<close>

lemma zero_element_size_default:
  assumes "\<forall>k. succeeds E k" and "int (length vs) \<le> PTRDIFF_MAX"
  shows "\<exists>s1 b1 s2 b2. vec_new E s 0 None = Ret s1 \<and> vec s1 = Handle (Some b1)
          \<and> valid_container b1 \<and> length_elems (meta b1) = 0 \<and> vec_get_element_size b1 = 0
          \<and> capacity (meta b1) = sizeof_vvectorMetadata
          \<and> run E s1 (map (\<lambda>v. PushBack (Some v)) vs) = Ret (replicate (length vs) 0, s2)
          \<and> vec s2 = Handle (Some b2) \<and> valid_container b2
          \<and> length_elems (meta b2) = int (length vs)
          \<and> capacity (meta b2) = sizeof_vvectorMetadata
          \<and> calls s2 = calls s1 @ replicate (length vs)
                (ReallocCall vvector_lib_realloc sizeof_vvectorMetadata sizeof_vvectorMetadata 0)"
proof -
  from vec_new_success [OF assms(1), where n = 0 and allocator = None and s = s]
  obtain s1 b1 where
    new: "vec_new E s 0 None = Ret s1" and v1: "vec s1 = Handle (Some b1)"
    and l1: "length_elems (meta b1) = 0" and e1: "vec_get_element_size b1 = 0"
    by auto
  have "valid_state s1" using new by (rule vec_new_valid) simp
  then have val: "valid_container b1" using v1 by (simp add: valid_state_def)
  from vec_new_Ret [OF new v1] have d1: "desc b1 = None" "element_size (meta b1) = 0"
    and c1: "capacity (meta b1) = sizeof_vvectorMetadata"
    by simp_all
  have r1: "get_realloc b1 = Some vvector_lib_realloc" and x1: "get_ctx b1 = 0"
    using d1 by (simp_all add: helper_defs)
  have room: "length_elems (meta b1) + int (length vs) \<le> PTRDIFF_MAX"
    using assms(2) l1 by simp
  from zero_size_push_all [OF val e1 v1 r1 assms(1) room] obtain s2 where
    "run E s1 (map (\<lambda>v. PushBack (Some v)) vs) = Ret (replicate (length vs) 0, s2)"
    "vec s2 = Handle (Some (set_length b1 (length_elems (meta b1) + int (length vs))))"
    "valid_container (set_length b1 (length_elems (meta b1) + int (length vs)))"
    "calls s2 = calls s1 @ replicate (length vs)
                 (ReallocCall vvector_lib_realloc (capacity (meta b1)) (capacity (meta b1))
                    (get_ctx b1))"
    by blast
  then show ?thesis
    using new v1 val l1 e1 c1 x1
    by (intro exI [of _ s1] exI [of _ b1] exI [of _ s2]
        exI [of _ "set_length b1 (length_elems (meta b1) + int (length vs))"]) simp
qed

lemma custom0_created: "vec_new env_ok caller_mem 0 (Some 1) = Ret custom0"
  by (simp add: vec_new_def do_malloc_def normalise_alloc_def env_ok_def caller_mem_def
      custom0_def buf_custom0_def helper_defs Let_def)

lemma push_custom0: "vvectorPushBack env_ok custom0 (Some [1]) = Ret (0, pushed_custom0)"
  by (simp add: vvectorPushBack_def vvectorInsertValueAt_def add_page_if_needed_def
      custom0_def pushed_custom0_def buf_custom0_def caller_mem_def helper_defs
      range_defs set_length_def Let_def)

lemma push_fresh0: "vvectorPushBack env_ok fresh0 (Some [1]) = Ret (0, pushed_fresh0)"
  by (simp add: vvectorPushBack_def vvectorInsertValueAt_def add_page_if_needed_def
      do_realloc_def fresh0_def pushed_fresh0_def helper_defs env_ok_def
      range_defs set_capacity_def resize_data_def set_length_def block_header_def Let_def)

text \<open>
  C10 says that \<^verbatim>\<open>vec_new_\<close> accepts the element size 0 and returns a valid empty
  container, on which every push succeeds and the capacity stays the header size because
  each growth step asks for zero bytes more. With a null descriptor the code does so
  (\<open>zero_element_size_default\<close>; the first push on \<open>fresh0\<close> logs the reallocation from 24
  to 24 bytes). With a descriptor it does not: \<^verbatim>\<open>vec_new_\<close> marks the presence of the
  descriptor by storing \<^verbatim>\<open>-sizeof_type\<close>, and \<open>-0\<close> is not negative. The container of
  \<^verbatim>\<open>vec_new_(0, &descriptor)\<close> holds the descriptor in its block of 56 bytes, but
  \<^verbatim>\<open>has_custom_alloc\<close> is false: its header counts as 24 bytes, it is not a valid
  container and not full, its functions resolve to the library's although the caller's
  allocate function made the block, and a push returns 0 without any growth step.
\<close>

theorem zero_element_size_descriptor_not_flagged:
  "vec_new env_ok caller_mem 0 (Some 1) = Ret custom0
   \<and> vec custom0 = Handle (Some buf_custom0)
   \<and> desc buf_custom0 = Some \<lparr> malloc_fn = Some (user_fn 1), free_fn = Some vvector_lib_free,
                                realloc_fn = Some (user_fn 3), ctx = 7 \<rparr>
   \<and> \<not> has_custom_alloc buf_custom0
   \<and> get_malloc buf_custom0 = Some vvector_lib_malloc
   \<and> get_free buf_custom0 = Some vvector_lib_free
   \<and> get_realloc buf_custom0 = Some vvector_lib_realloc
   \<and> get_ctx buf_custom0 = 0
   \<and> capacity (meta buf_custom0) = 56 \<and> getLengthOfMetadata buf_custom0 = 24
   \<and> \<not> valid_container buf_custom0
   \<and> \<not> is_full buf_custom0
   \<and> vvectorPushBack env_ok custom0 (Some [1]) = Ret (0, pushed_custom0)
   \<and> calls pushed_custom0 = calls custom0
   \<and> vec_new env_ok s_init 0 None = Ret fresh0
   \<and> vvectorPushBack env_ok fresh0 (Some [1]) = Ret (0, pushed_fresh0)
   \<and> calls pushed_fresh0 = calls fresh0 @ [ReallocCall vvector_lib_realloc 24 24 0]"
  using custom0_created push_custom0 fresh0_created push_fresh0
  by (simp add: custom0_def pushed_custom0_def buf_custom0_def fresh0_def pushed_fresh0_def
      valid_container_def block_header_def helper_defs)

section \<open>The allocator descriptor (C9)\<close>

lemma set_mem_simps [simp]:
  "set_mem m (Crash c) = Crash c"
  "set_mem m (Ret (x, s)) = Ret (x, s\<lparr>mem := m\<rparr>)"
  by (simp_all add: set_mem_def)

text \<open>No operation on the container reads the caller's memory.\<close>

lemma do_realloc_mem:
  "do_realloc E (s\<lparr>mem := m\<rparr>) fn b new_size old_size c =
     (case do_realloc E s fn b new_size old_size c of
        Crash x \<Rightarrow> Crash x
      | Ret (s', r) \<Rightarrow> Ret (s'\<lparr>mem := m\<rparr>, r))"
  by (simp add: do_realloc_def Let_def split: option.splits)

lemma add_page_if_needed_mem:
  "add_page_if_needed E (s\<lparr>mem := m\<rparr>) = set_mem m (add_page_if_needed E s)"
  by (auto simp: add_page_if_needed_def do_realloc_mem Let_def
      split: vvector.splits option.splits outcome.splits prod.splits)

lemma vvectorReserve_mem:
  "vvectorReserve E (s\<lparr>mem := m\<rparr>) n = set_mem m (vvectorReserve E s n)"
  by (auto simp: vvectorReserve_def do_realloc_mem Let_def
      split: vvector.splits option.splits outcome.splits prod.splits)

lemma vvectorShrinkToFit_mem:
  "vvectorShrinkToFit E (s\<lparr>mem := m\<rparr>) = set_mem m (vvectorShrinkToFit E s)"
  by (auto simp: vvectorShrinkToFit_def do_realloc_mem Let_def
      split: vvector.splits option.splits outcome.splits prod.splits)

lemma vvectorWriteValueAt_mem:
  "vvectorWriteValueAt (s\<lparr>mem := m\<rparr>) i val = set_mem m (vvectorWriteValueAt s i val)"
  by (auto simp: vvectorWriteValueAt_def Let_def
      split: vvector.splits option.splits outcome.splits prod.splits)

lemma vvectorInsertValueAt_mem:
  "vvectorInsertValueAt E (s\<lparr>mem := m\<rparr>) i val = set_mem m (vvectorInsertValueAt E s i val)"
  by (auto simp: vvectorInsertValueAt_def add_page_if_needed_mem Let_def
      split: vvector.splits option.splits outcome.splits prod.splits)

lemma vvectorPushBack_mem:
  "vvectorPushBack E (s\<lparr>mem := m\<rparr>) val = set_mem m (vvectorPushBack E s val)"
  by (auto simp: vvectorPushBack_def vvectorInsertValueAt_mem Let_def
      split: vvector.splits option.splits outcome.splits prod.splits)

lemma vvectorRemoveAt_mem:
  "vvectorRemoveAt (s\<lparr>mem := m\<rparr>) i = set_mem m (vvectorRemoveAt s i)"
  by (auto simp: vvectorRemoveAt_def Let_def
      split: vvector.splits option.splits outcome.splits prod.splits)

lemma vvectorRemoveBack_mem:
  "vvectorRemoveBack (s\<lparr>mem := m\<rparr>) = set_mem m (vvectorRemoveBack s)"
  by (auto simp: vvectorRemoveBack_def vvectorRemoveAt_mem Let_def
      split: vvector.splits option.splits outcome.splits prod.splits)

lemma apply_operation_mem:
  "apply_operation E (s\<lparr>mem := m\<rparr>) x = set_mem m (apply_operation E s x)"
  by (cases x)
     (simp_all add: vvectorPushBack_mem vvectorInsertValueAt_mem vvectorWriteValueAt_mem
        vvectorRemoveAt_mem vvectorRemoveBack_mem vvectorReserve_mem vvectorShrinkToFit_mem)

lemma run_mem: "run E (s\<lparr>mem := m\<rparr>) xs = set_mem m (run E s xs)"
proof (induction xs arbitrary: s)
  case Nil
  then show ?case by simp
next
  case (Cons x xs)
  then show ?case
    by (simp add: apply_operation_mem split: outcome.splits prod.splits)
qed

lemma custom4_created: "vec_new env_ok caller_mem 4 (Some 1) = Ret custom4"
  by (simp add: vec_new_def do_malloc_def normalise_alloc_def env_ok_def caller_mem_def
      custom4_def buf_custom4_def helper_defs Let_def)

text \<open>
  A write at a negative index that stays inside the block is a write into the header:
  \<^verbatim>\<open>index_is_invalid\<close> lets it pass and \<^verbatim>\<open>vvectorWriteValueAt(vec, -2, value)\<close> on the
  fresh container \<open>custom4\<close> returns 0 and replaces the low bytes of the stored context.
  On \<open>two4\<close>, \<^verbatim>\<open>vvectorRemoveAt(vec, -1)\<close> moves the two elements four bytes down, over the
  high half of the stored element size.
\<close>

lemma copy_into_descriptor:
  "copy_value buf_custom4 48 [9, 0, 0, 0] 4 =
     Ret \<lparr> meta = \<lparr> capacity = 56, length_elems = 0, element_size = - 4 \<rparr>,
           desc = Some \<lparr> malloc_fn = Some (user_fn 1), free_fn = Some vvector_lib_free,
                         realloc_fn = Some (user_fn 3), ctx = 9 \<rparr>,
           data = [] \<rparr>"
  by code_simp

lemma move_into_metadata:
  "memmove_data buf_two4 20 24 8 =
     Ret \<lparr> meta = \<lparr> capacity = 152, length_elems = 2, element_size = 289077004400066564 \<rparr>,
          desc = None, data = [5, 6, 7, 8, 5, 6, 7, 8] @ replicate 120 0 \<rparr>"
  by code_simp

lemma write_negative_index_overwrites_ctx:
  "vvectorWriteValueAt custom4 (- 2) (Some [9, 0, 0, 0]) = Ret (0, overwritten_custom4)"
proof -
  have "get_start_of_data buf_custom4 = 56" "vec_get_element_size buf_custom4 = 4"
    "\<not> index_is_invalid buf_custom4 (- 2)"
    by (simp_all add: buf_custom4_def helper_defs)
  then show ?thesis
    using copy_into_descriptor
    by (simp add: vvectorWriteValueAt_def custom4_def overwritten_custom4_def Let_def)
qed

lemma remove_negative_index_overwrites_element_size:
  "vvectorRemoveAt two4 (- 1) =
     Ret (0, two4\<lparr>vec := Handle (Some
        \<lparr> meta = \<lparr> capacity = 152, length_elems = 1, element_size = 289077004400066564 \<rparr>,
          desc = None, data = [5, 6, 7, 8, 5, 6, 7, 8] @ replicate 120 0 \<rparr>)\<rparr>)"
proof -
  have "get_start_of_data buf_two4 = 24" "vec_get_element_size buf_two4 = 4"
    "\<not> index_is_invalid buf_two4 (- 1)" "vvectorGetLength (Handle (Some buf_two4)) = 2"
    by (simp_all add: buf_two4_def helper_defs)
  then show ?thesis
    using move_into_metadata
    by (simp add: vvectorRemoveAt_def two4_def Let_def set_length_def get_meta_def range_defs)
qed

text \<open>
  C9: when \<^verbatim>\<open>vec_new_\<close> is given a descriptor and returns a container, the buffer holds
  a copy of the descriptor in which each null function pointer is replaced by the
  library default; for a positive element size the resolved allocate, deallocate and
  reallocate functions and the context are those of the copy. Whatever the caller's
  memory holds afterwards, every sequence of calls behaves as it would have; and in
  every state that calls with non-negative indices reach, the descriptor and the
  resolved functions and context are those of the creation.
\<close>

theorem allocator_descriptor_copied:
  assumes "vec_new E s n (Some p) = Ret s1" and "vec s1 = Handle (Some b)"
  shows "\<exists>given. mem s p = Some given
    \<and> desc b = Some \<lparr> malloc_fn = (case malloc_fn given of
                                       None \<Rightarrow> Some vvector_lib_malloc | Some f \<Rightarrow> Some f),
                      free_fn = (case free_fn given of
                                   None \<Rightarrow> Some vvector_lib_free | Some f \<Rightarrow> Some f),
                      realloc_fn = (case realloc_fn given of
                                      None \<Rightarrow> Some vvector_lib_realloc | Some f \<Rightarrow> Some f),
                      ctx = ctx given \<rparr>
    \<and> (0 < n \<longrightarrow>
          get_malloc b = (case malloc_fn given of
                            None \<Rightarrow> Some vvector_lib_malloc | Some f \<Rightarrow> Some f)
          \<and> get_free b = (case free_fn given of
                            None \<Rightarrow> Some vvector_lib_free | Some f \<Rightarrow> Some f)
          \<and> get_realloc b = (case realloc_fn given of
                               None \<Rightarrow> Some vvector_lib_realloc | Some f \<Rightarrow> Some f)
          \<and> get_ctx b = ctx given)
    \<and> (\<forall>m xs. run E (s1\<lparr>mem := m\<rparr>) xs = set_mem m (run E s1 xs))
    \<and> (\<forall>m xs rcs s2 b2.
          list_all index_nonneg xs
          \<and> run E (s1\<lparr>mem := m\<rparr>) xs = Ret (rcs, s2) \<and> vec s2 = Handle (Some b2)
          \<longrightarrow> desc b2 = desc b \<and> get_malloc b2 = get_malloc b \<and> get_free b2 = get_free b
              \<and> get_realloc b2 = get_realloc b \<and> get_ctx b2 = get_ctx b)"
proof -
  from vec_new_Ret [OF assms] obtain given where
    g: "mem s p = Some given" and d: "desc b = Some (normalise_alloc given)"
    and e: "element_size (meta b) = - n" and n0: "0 \<le> n"
    by auto
  have copy: "desc b = Some \<lparr> malloc_fn = (case malloc_fn given of
                                       None \<Rightarrow> Some vvector_lib_malloc | Some f \<Rightarrow> Some f),
                      free_fn = (case free_fn given of
                                   None \<Rightarrow> Some vvector_lib_free | Some f \<Rightarrow> Some f),
                      realloc_fn = (case realloc_fn given of
                                      None \<Rightarrow> Some vvector_lib_realloc | Some f \<Rightarrow> Some f),
                      ctx = ctx given \<rparr>"
    using d by (simp add: normalise_alloc_def)
  have resolved: "get_malloc b = (case malloc_fn given of
                            None \<Rightarrow> Some vvector_lib_malloc | Some f \<Rightarrow> Some f)
          \<and> get_free b = (case free_fn given of
                            None \<Rightarrow> Some vvector_lib_free | Some f \<Rightarrow> Some f)
          \<and> get_realloc b = (case realloc_fn given of
                               None \<Rightarrow> Some vvector_lib_realloc | Some f \<Rightarrow> Some f)
          \<and> get_ctx b = ctx given" if "0 < n"
    using that e copy by (simp add: helper_defs)
  have inv: "valid_container b \<or> vec_get_element_size b = 0"
  proof (cases "0 < n")
    case True
    then have "valid_state s1" using assms(1) by (simp add: vec_new_valid)
    then show ?thesis using assms(2) by (simp add: valid_state_def)
  next
    case False
    then have "n = 0" using n0 by simp
    then show ?thesis using e by (simp add: helper_defs)
  qed
  have later: "desc b2 = desc b \<and> get_malloc b2 = get_malloc b \<and> get_free b2 = get_free b
              \<and> get_realloc b2 = get_realloc b \<and> get_ctx b2 = get_ctx b"
    if "list_all index_nonneg xs
        \<and> run E (s1\<lparr>mem := m\<rparr>) xs = Ret (rcs, s2) \<and> vec s2 = Handle (Some b2)"
    for m xs rcs s2 b2
  proof -
    have "vec (s1\<lparr>mem := m\<rparr>) = Handle (Some b)" using assms(2) by simp
    then have sl: "same_layout b b2" using that inv by (blast intro: run_frame)
    then show ?thesis using same_layout_helpers [OF sl] by (simp add: same_layout_def)
  qed
  show ?thesis
    using g copy resolved later by (simp add: run_mem)
qed

lemma reserve_custom4: "vvectorReserve env_ok custom4 1 = Ret (0, reserved_custom4)"
  by (simp add: vvectorReserve_def do_realloc_def custom4_def reserved_custom4_def
      buf_custom4_def caller_mem_def helper_defs env_ok_def range_defs set_capacity_def
      resize_data_def block_header_def Let_def sdiv_nonneg smod_nonneg map_const_upt)

theorem allocator_descriptor_copied_witness:
  "vec_new env_ok caller_mem 4 (Some 1) = Ret custom4 \<and> vec custom4 = Handle (Some buf_custom4)
   \<and> get_malloc buf_custom4 = Some (user_fn 1) \<and> get_free buf_custom4 = Some vvector_lib_free
   \<and> get_realloc buf_custom4 = Some (user_fn 3) \<and> get_ctx buf_custom4 = 7
   \<and> run env_ok (custom4\<lparr>mem := (\<lambda>p. None)\<rparr>) [Reserve 1]
        = set_mem (\<lambda>p. None) (run env_ok custom4 [Reserve 1])
   \<and> list_all index_nonneg [Reserve 1]
   \<and> run env_ok custom4 [Reserve 1] = Ret ([0], reserved_custom4)
   \<and> (\<exists>b2. vec reserved_custom4 = Handle (Some b2) \<and> desc b2 = desc buf_custom4
          \<and> get_realloc b2 = Some (user_fn 3) \<and> get_ctx b2 = 7)"
proof -
  have v: "vec custom4 = Handle (Some buf_custom4)" by (simp add: custom4_def)
  from allocator_descriptor_copied [OF custom4_created v] obtain given where
    g: "mem caller_mem 1 = Some given"
    and r: "0 < (4::int) \<longrightarrow>
          get_malloc buf_custom4 = (case malloc_fn given of
                            None \<Rightarrow> Some vvector_lib_malloc | Some f \<Rightarrow> Some f)
          \<and> get_free buf_custom4 = (case free_fn given of
                            None \<Rightarrow> Some vvector_lib_free | Some f \<Rightarrow> Some f)
          \<and> get_realloc buf_custom4 = (case realloc_fn given of
                               None \<Rightarrow> Some vvector_lib_realloc | Some f \<Rightarrow> Some f)
          \<and> get_ctx buf_custom4 = ctx given"
    and i: "\<forall>m xs. run env_ok (custom4\<lparr>mem := m\<rparr>) xs = set_mem m (run env_ok custom4 xs)"
    and l: "\<forall>m xs rcs s2 b2.
          list_all index_nonneg xs
          \<and> run env_ok (custom4\<lparr>mem := m\<rparr>) xs = Ret (rcs, s2) \<and> vec s2 = Handle (Some b2)
          \<longrightarrow> desc b2 = desc buf_custom4 \<and> get_malloc b2 = get_malloc buf_custom4
              \<and> get_free b2 = get_free buf_custom4
              \<and> get_realloc b2 = get_realloc buf_custom4 \<and> get_ctx b2 = get_ctx buf_custom4"
    by blast
  have "given = \<lparr> malloc_fn = Some (user_fn 1), free_fn = None,
                    realloc_fn = Some (user_fn 3), ctx = 7 \<rparr>"
    using g by (simp add: caller_mem_def)
  then have res: "get_malloc buf_custom4 = Some (user_fn 1)
   \<and> get_free buf_custom4 = Some vvector_lib_free
   \<and> get_realloc buf_custom4 = Some (user_fn 3) \<and> get_ctx buf_custom4 = 7"
    using r by simp
  have ind: "run env_ok (custom4\<lparr>mem := (\<lambda>p. None)\<rparr>) [Reserve 1]
        = set_mem (\<lambda>p. None) (run env_ok custom4 [Reserve 1])"
    using i by blast
  have nn: "list_all index_nonneg [Reserve 1]" by simp
  have rn: "run env_ok custom4 [Reserve 1] = Ret ([0], reserved_custom4)"
    by (simp add: reserve_custom4)
  have same: "custom4\<lparr>mem := mem custom4\<rparr> = custom4" by simp
  obtain b2 where b2: "vec reserved_custom4 = Handle (Some b2)"
    by (simp add: reserved_custom4_def)
  have "desc b2 = desc buf_custom4 \<and> get_malloc b2 = get_malloc buf_custom4
              \<and> get_free b2 = get_free buf_custom4
              \<and> get_realloc b2 = get_realloc buf_custom4 \<and> get_ctx b2 = get_ctx buf_custom4"
    using l [rule_format, of "[Reserve 1]" "mem custom4" "[0]" reserved_custom4 b2] nn rn b2 same
    by simp
  then have "\<exists>b2. vec reserved_custom4 = Handle (Some b2) \<and> desc b2 = desc buf_custom4
          \<and> get_realloc b2 = Some (user_fn 3) \<and> get_ctx b2 = 7"
    using b2 res by auto
  then show ?thesis using custom4_created v res ind nn rn by blast
qed

end
